theory Spec2Isabelle
  imports Main "HOL-Library.Word"
begin

unbundle bit_operations_syntax

section \<open>The BMP decoder of gobmp (reader.go)\<close>

text \<open>
  A shallow embedding of \<^verbatim>\<open>reader.go\<close>. Go's \<^verbatim>\<open>byte\<close> is an 8-bit word and
  \<^verbatim>\<open>uint32\<close> a 32-bit word. Go's \<^verbatim>\<open>int\<close> is taken as the 64-bit integer of the
  usual platforms and written as \<open>int\<close>: every \<^verbatim>\<open>int\<close> the decoder computes comes
  from a 16- or 32-bit header field through a few additions and one product of two such
  values, and the only product that could leave the 64-bit range (the pixel buffer length)
  is the one the image package checks itself, see \<open>pixelBufferLength\<close>.
  The \<^verbatim>\<open>io.Reader\<close> is the list of the bytes it still holds.
\<close>

type_synonym byte = "8 word"
type_synonym uint32 = "32 word"

subsection \<open>Errors\<close>

text \<open>
  \<open>FormatError\<close> and \<open>UnsupportedError\<close> are the two error types of the package;
  \<open>EOF\<close> and \<open>ErrUnexpectedEOF\<close> are what \<^verbatim>\<open>io.ReadFull\<close> returns on a short
  read; \<open>Panic\<close> stands for a run-time panic (an index out of range, a nil pointer).
\<close>

datatype error =
    FormatError string
  | UnsupportedError string
  | EOF
  | ErrUnexpectedEOF
  | Panic string

text \<open>The \<^verbatim>\<open>%d\<close> verb of \<^verbatim>\<open>fmt.Sprintf\<close>.\<close>

fun decimal :: "nat \<Rightarrow> string" where
  "decimal n =
     (if n < 10 then [''0123456789'' ! n]
      else decimal (n div 10) @ [''0123456789'' ! (n mod 10)])"

declare decimal.simps [simp del]

definition sprint_d :: "int \<Rightarrow> string" where
  "sprint_d i = (if i < 0 then ''-'' @ decimal (nat (- i)) else decimal (nat i))"

subsection \<open>Images, colours and the configuration\<close>

datatype color = RGBA byte byte byte byte

record rectangle =
  Min_X :: int
  Min_Y :: int
  Max_X :: int
  Max_Y :: int

text \<open>\<^verbatim>\<open>image.Rect\<close>, \<^verbatim>\<open>Rectangle.Dx\<close> and \<^verbatim>\<open>Rectangle.Dy\<close>.\<close>

definition image_Rect :: "int \<Rightarrow> int \<Rightarrow> int \<Rightarrow> int \<Rightarrow> rectangle" where
  "image_Rect x0 y0 x1 y1 =
     \<lparr>Min_X = (if x0 > x1 then x1 else x0), Min_Y = (if y0 > y1 then y1 else y0),
      Max_X = (if x0 > x1 then x0 else x1), Max_Y = (if y0 > y1 then y0 else y1)\<rparr>"

definition Dx :: "rectangle \<Rightarrow> int" where
  "Dx rc = Max_X rc - Min_X rc"

definition Dy :: "rectangle \<Rightarrow> int" where
  "Dy rc = Max_Y rc - Min_Y rc"

text \<open>
  \<^verbatim>\<open>image.NRGBA\<close> has the fields \<open>Pix\<close>, \<open>Stride\<close> and \<open>Rect\<close>;
  \<^verbatim>\<open>image.Paletted\<close> has the same three and \<open>Palette\<close>. An entry of a
  \<^verbatim>\<open>color.Palette\<close> is an interface value, \<open>None\<close> while it is nil. An
  \<^verbatim>\<open>image.Image\<close> is a pointer to one of the two, \<open>None\<close> while it is nil.
\<close>

record NRGBA =
  Pix :: "byte list"
  Stride :: int
  Rect :: rectangle

record Paletted = NRGBA +
  Palette :: "color option list"

datatype image = Image_Paletted "Paletted option" | Image_NRGBA "NRGBA option"

text \<open>
  The buffer length of a new image: the image package panics when the product does not
  fit a non-negative \<^verbatim>\<open>int\<close>.
\<close>

definition pixelBufferLength :: "int \<Rightarrow> rectangle \<Rightarrow> error + nat" where
  "pixelBufferLength bytesPerPixel rc =
     (if bytesPerPixel < 0 \<or> Dx rc < 0 \<or> Dy rc < 0 \<or> bytesPerPixel * Dx rc * Dy rc \<ge> 2 ^ 63
      then Inl (Panic ''image: Rectangle has huge or negative dimensions'')
      else Inr (nat (bytesPerPixel * Dx rc * Dy rc)))"

definition NewPaletted :: "rectangle \<Rightarrow> color option list \<Rightarrow> error + Paletted" where
  "NewPaletted rc p =
     (case pixelBufferLength 1 rc of
        Inl e \<Rightarrow> Inl e
      | Inr n \<Rightarrow> Inr \<lparr>Pix = replicate n 0, Stride = 1 * Dx rc, Rect = rc, Palette = p\<rparr>)"

definition NewNRGBA :: "rectangle \<Rightarrow> error + NRGBA" where
  "NewNRGBA rc =
     (case pixelBufferLength 4 rc of
        Inl e \<Rightarrow> Inl e
      | Inr n \<Rightarrow> Inr \<lparr>Pix = replicate n 0, Stride = 4 * Dx rc, Rect = rc\<rparr>)"

text \<open>
  \<^verbatim>\<open>image.Config\<close>. The colour model is \<^verbatim>\<open>color.Palette(nil)\<close>, here
  \<open>PaletteModel []\<close>, or \<^verbatim>\<open>color.NRGBAModel\<close>.
\<close>

datatype color_model = PaletteModel "color option list" | NRGBAModel

record Config =
  ColorModel :: color_model
  Width :: int
  Height :: int

subsection \<open>The decoder state\<close>

definition bI_RGB :: uint32 where "bI_RGB = 0"
definition bI_RLE8 :: uint32 where "bI_RLE8 = 1"
definition bI_RLE4 :: uint32 where "bI_RLE4 = 2"
definition bI_BITFIELDS :: uint32 where "bI_BITFIELDS = 3"

record decoder =
  r :: "byte list"
  img_Paletted :: "Paletted option"
  img_NRGBA :: "NRGBA option"
  bfOffBits :: uint32
  headerSize :: uint32
  width :: int
  height :: int
  bitCount :: int
  biCompression :: uint32
  srcPalNumEntries :: int
  srcPalBytesPerEntry :: int
  srcPalSizeInBytes :: int
  dstPalNumEntries :: int
  dstHasPalette :: bool
  dstPalette :: "color option list"
  hasBitfieldsSegment :: bool
  bitFieldsSize :: int
  isTopDown :: bool

text \<open>\<^verbatim>\<open>new(decoder)\<close> with the reader set: every other field has its zero value.\<close>

definition new_decoder :: "byte list \<Rightarrow> decoder" where
  "new_decoder rd =
     \<lparr>r = rd, img_Paletted = None, img_NRGBA = None, bfOffBits = 0, headerSize = 0,
      width = 0, height = 0, bitCount = 0, biCompression = 0, srcPalNumEntries = 0,
      srcPalBytesPerEntry = 0, srcPalSizeInBytes = 0, dstPalNumEntries = 0,
      dstHasPalette = False, dstPalette = [], hasBitfieldsSegment = False,
      bitFieldsSize = 0, isTopDown = False\<rparr>"

subsection \<open>Reading bytes\<close>

text \<open>
  \<^verbatim>\<open>io.ReadFull(rd, buf)\<close> with \<open>n\<close> the length of \<open>buf\<close>: the \<open>n\<close> bytes
  and the rest of the reader, or, when fewer than \<open>n\<close> bytes are left, all of them
  consumed and \<open>EOF\<close> (none was left) or \<open>ErrUnexpectedEOF\<close>. Reading zero bytes
  succeeds and does not touch the reader.
\<close>

definition ReadFull :: "byte list \<Rightarrow> nat \<Rightarrow> (error + byte list) \<times> byte list" where
  "ReadFull rd n =
     (if n \<le> length rd then (Inr (take n rd), drop n rd)
      else if rd = [] then (Inl EOF, [])
      else (Inl ErrUnexpectedEOF, []))"

text \<open>The slice \<^verbatim>\<open>b[i:j]\<close>, and checked reads and writes of one element.\<close>

definition slice :: "'a list \<Rightarrow> nat \<Rightarrow> nat \<Rightarrow> 'a list" where
  "slice b i j = take (j - i) (drop i b)"

definition load :: "'a list \<Rightarrow> int \<Rightarrow> error + 'a" where
  "load b k =
     (if 0 \<le> k \<and> k < int (length b) then Inr (b ! nat k)
      else Inl (Panic ''index out of range''))"

definition store :: "'a list \<Rightarrow> int \<Rightarrow> 'a \<Rightarrow> error + 'a list" where
  "store b k v =
     (if 0 \<le> k \<and> k < int (length b) then Inr (b[nat k := v])
      else Inl (Panic ''index out of range''))"

text \<open>
  \<open>getWORD\<close> and \<open>getDWORD\<close> are only called on slices of two and four bytes cut
  from the fixed-size header buffers.
\<close>

definition getWORD :: "byte list \<Rightarrow> uint32" where
  "getWORD b = ucast (b ! 0) OR push_bit 8 (ucast (b ! 1))"

definition getDWORD :: "byte list \<Rightarrow> uint32" where
  "getDWORD b =
     ucast (b ! 0) OR push_bit 8 (ucast (b ! 1)) OR push_bit 16 (ucast (b ! 2))
       OR push_bit 24 (ucast (b ! 3))"

subsection \<open>Headers\<close>

text \<open>
  A Go method that returns \<^verbatim>\<open>error\<close> and changes the decoder in place returns
  here the error, \<open>None\<close> for nil, and the decoder as it has left it.
\<close>

definition decodeInfoHeader40 :: "decoder \<Rightarrow> byte list \<Rightarrow> bool \<Rightarrow> error option \<times> decoder" where
  "decodeInfoHeader40 d h configOnly =
     (let d = d\<lparr>width := sint (getDWORD (slice h 4 8))\<rparr> in
      if width d < 1 then (Some (FormatError (''bad width '' @ sprint_d (width d))), d)
      else
        let d = d\<lparr>height := sint (getDWORD (slice h 8 12))\<rparr>;
            d = (if height d < 0 then d\<lparr>isTopDown := True, height := - height d\<rparr> else d) in
        if height d < 1 then (Some (FormatError (''bad height '' @ sprint_d (height d))), d)
        else
          let d = d\<lparr>bitCount := uint (getWORD (slice h 14 16))\<rparr> in
          if configOnly then (None, d)
          else
            let d = d\<lparr>biCompression := getDWORD (slice h 16 20)\<rparr> in
            if biCompression d \<noteq> bI_RGB \<and> biCompression d \<noteq> bI_RLE4 \<and>
               biCompression d \<noteq> bI_RLE8 \<and> biCompression d \<noteq> bI_BITFIELDS
            then (Some (UnsupportedError
                    (''compression or image type '' @ sprint_d (uint (biCompression d)))), d)
            else
              let d = (if biCompression d = bI_BITFIELDS \<and> headerSize d = 40
                       then d\<lparr>hasBitfieldsSegment := True, bitFieldsSize := 12\<rparr> else d);
                  biClrUsed = getDWORD (slice h 32 36) in
              if biClrUsed > 10000
              then (Some (FormatError (''bad palette size '' @ sprint_d (uint biClrUsed))), d)
              else
                let d = d\<lparr>srcPalBytesPerEntry := 4\<rparr>;
                    d = (if bitCount d \<ge> 1 \<and> bitCount d \<le> 8 then
                           (if biClrUsed = 0
                            then d\<lparr>srcPalNumEntries := push_bit (nat (bitCount d)) 1\<rparr>
                            else d\<lparr>srcPalNumEntries := uint biClrUsed\<rparr>)
                         else d\<lparr>srcPalNumEntries := uint biClrUsed\<rparr>)
                in (None, d))"

text \<open>
  \<open>readInfoHeader\<close> is only called with a header size of 40, so \<^verbatim>\<open>h[4:]\<close> has
  \<open>headerSize - 4\<close> bytes; the first four bytes of \<open>h\<close> stay zero.
\<close>

definition readInfoHeader ::
  "decoder \<Rightarrow> (decoder \<Rightarrow> byte list \<Rightarrow> bool \<Rightarrow> error option \<times> decoder) \<Rightarrow> bool
     \<Rightarrow> error option \<times> decoder" where
  "readInfoHeader d decodeFn configOnly =
     (case ReadFull (r d) (unat (headerSize d) - 4) of
        (Inl err, rd) \<Rightarrow> (Some err, d\<lparr>r := rd\<rparr>)
      | (Inr rest, rd) \<Rightarrow>
          (case decodeFn (d\<lparr>r := rd\<rparr>) (replicate 4 0 @ rest) configOnly of
             (Some err, d) \<Rightarrow> (Some err, d)
           | (None, d) \<Rightarrow>
               (None, if bitCount d \<ge> 1 \<and> bitCount d \<le> 8
                      then d\<lparr>dstHasPalette := True\<rparr> else d)))"

definition decodeFileHeader :: "decoder \<Rightarrow> byte list \<Rightarrow> error option \<times> decoder" where
  "decodeFileHeader d b =
     (if b ! 0 \<noteq> 0x42 \<or> b ! 1 \<noteq> 0x4d then (Some (FormatError ''not a BMP file''), d)
      else (None, d\<lparr>bfOffBits := getDWORD (slice b 10 14)\<rparr>))"

definition readHeaders :: "decoder \<Rightarrow> bool \<Rightarrow> error option \<times> decoder" where
  "readHeaders d configOnly =
     (case ReadFull (r d) 18 of
        (Inl err, rd) \<Rightarrow> (Some err, d\<lparr>r := rd\<rparr>)
      | (Inr fh, rd) \<Rightarrow>
          (case decodeFileHeader (d\<lparr>r := rd\<rparr>) (slice fh 0 14) of
             (Some err, d) \<Rightarrow> (Some err, d)
           | (None, d) \<Rightarrow>
               let d = d\<lparr>headerSize := getDWORD (slice fh 14 18)\<rparr> in
               if headerSize d = 40 then
                 (case readInfoHeader d decodeInfoHeader40 configOnly of
                    (Some err, d) \<Rightarrow> (Some err, d)
                  | (None, d) \<Rightarrow>
                      (None, d\<lparr>srcPalSizeInBytes := srcPalNumEntries d * srcPalBytesPerEntry d\<rparr>))
               else
                 (Some (UnsupportedError
                    (''BMP version (header size '' @ sprint_d (uint (headerSize d)) @ '')'')), d)))"

text \<open>
  \<open>DecodeConfig\<close> returns the configuration or the error, and, as its second component,
  what is left of the reader.
\<close>

definition DecodeConfig :: "byte list \<Rightarrow> (error + Config) \<times> byte list" where
  "DecodeConfig rd =
     (case readHeaders (new_decoder rd) True of
        (Some err, d) \<Rightarrow> (Inl err, r d)
      | (None, d) \<Rightarrow>
          (Inr \<lparr>ColorModel = (if dstHasPalette d then PaletteModel [] else NRGBAModel),
                Width = width d, Height = height d\<rparr>, r d))"

subsection \<open>The palette\<close>

function readPalette_loop :: "decoder \<Rightarrow> byte list \<Rightarrow> nat \<Rightarrow> error option \<times> decoder" where
  "readPalette_loop d buf i =
     (if int i < dstPalNumEntries d then
        (case load buf (int i * srcPalBytesPerEntry d + 0) of
           Inl e \<Rightarrow> (Some e, d)
         | Inr bl \<Rightarrow>
        (case load buf (int i * srcPalBytesPerEntry d + 1) of
           Inl e \<Rightarrow> (Some e, d)
         | Inr gr \<Rightarrow>
        (case load buf (int i * srcPalBytesPerEntry d + 2) of
           Inl e \<Rightarrow> (Some e, d)
         | Inr rd \<Rightarrow>
        (case store (dstPalette d) (int i) (Some (RGBA rd gr bl 255)) of
           Inl e \<Rightarrow> (Some e, d)
         | Inr p \<Rightarrow> readPalette_loop (d\<lparr>dstPalette := p\<rparr>) buf (i + 1)))))
      else (None, d))"
  by pat_completeness auto
termination
  by (relation "measure (\<lambda>(d, buf, i). nat (dstPalNumEntries d) - i)") auto

declare readPalette_loop.simps [simp del]

definition readPalette :: "decoder \<Rightarrow> error option \<times> decoder" where
  "readPalette d =
     (case ReadFull (r d) (nat (srcPalSizeInBytes d)) of
        (Inl err, rd) \<Rightarrow> (Some err, d\<lparr>r := rd\<rparr>)
      | (Inr buf, rd) \<Rightarrow>
          let d = d\<lparr>r := rd\<rparr> in
          if \<not> dstHasPalette d then (None, d\<lparr>dstPalNumEntries := 0\<rparr>)
          else
            let d = d\<lparr>dstPalNumEntries := srcPalNumEntries d\<rparr>;
                d = (if dstPalNumEntries d > 256 then d\<lparr>dstPalNumEntries := 256\<rparr> else d);
                d = d\<lparr>dstPalette := replicate (nat (dstPalNumEntries d)) None\<rparr>
            in readPalette_loop d buf 0)"

subsection \<open>Rows\<close>

text \<open>
  The assignment \<^verbatim>\<open>d.img_Paletted.Pix[k] = v\<close>: a panic when the image is nil or
  \<open>k\<close> is out of range.
\<close>

definition set_Paletted_Pix :: "decoder \<Rightarrow> int \<Rightarrow> byte \<Rightarrow> error + decoder" where
  "set_Paletted_Pix d k v =
     (case img_Paletted d of
        None \<Rightarrow> Inl (Panic ''nil pointer dereference'')
      | Some p \<Rightarrow>
          (case store (Pix p) k v of
             Inl e \<Rightarrow> Inl e
           | Inr px \<Rightarrow> Inr (d\<lparr>img_Paletted := Some (p\<lparr>Pix := px\<rparr>)\<rparr>)))"

definition set_NRGBA_Pix :: "decoder \<Rightarrow> int \<Rightarrow> byte \<Rightarrow> error + decoder" where
  "set_NRGBA_Pix d k v =
     (case img_NRGBA d of
        None \<Rightarrow> Inl (Panic ''nil pointer dereference'')
      | Some p \<Rightarrow>
          (case store (Pix p) k v of
             Inl e \<Rightarrow> Inl e
           | Inr px \<Rightarrow> Inr (d\<lparr>img_NRGBA := Some (p\<lparr>Pix := px\<rparr>)\<rparr>)))"

text \<open>The field \<^verbatim>\<open>d.img_Paletted.Stride\<close> and \<^verbatim>\<open>d.img_NRGBA.Stride\<close>.\<close>

definition Paletted_Stride :: "decoder \<Rightarrow> error + int" where
  "Paletted_Stride d =
     (case img_Paletted d of
        None \<Rightarrow> Inl (Panic ''nil pointer dereference'') | Some p \<Rightarrow> Inr (Stride p))"

definition NRGBA_Stride :: "decoder \<Rightarrow> error + int" where
  "NRGBA_Stride d =
     (case img_NRGBA d of
        None \<Rightarrow> Inl (Panic ''nil pointer dereference'') | Some p \<Rightarrow> Inr (Stride p))"

lemma width_set_Paletted_Pix: "set_Paletted_Pix d k v = Inr d' \<Longrightarrow> width d' = width d"
  by (auto simp: set_Paletted_Pix_def split: option.splits sum.splits)

lemma width_set_NRGBA_Pix: "set_NRGBA_Pix d k v = Inr d' \<Longrightarrow> width d' = width d"
  by (auto simp: set_NRGBA_Pix_def split: option.splits sum.splits)

function decodeRow_1_loop :: "decoder \<Rightarrow> byte list \<Rightarrow> int \<Rightarrow> nat \<Rightarrow> error option \<times> decoder" where
  "decodeRow_1_loop d buf j i =
     (if int i < width d then
        (case load buf (int (i div 8)) of
           Inl e \<Rightarrow> (Some e, d)
         | Inr x \<Rightarrow>
             let v = (if x AND push_bit (7 - i mod 8) 1 = 0 then 0 else 1) in
             if uint v \<ge> dstPalNumEntries d
             then (Some (FormatError ''palette index out of range''), d)
             else
               (case Paletted_Stride d of
                  Inl e \<Rightarrow> (Some e, d)
                | Inr st \<Rightarrow>
                    (case set_Paletted_Pix d (j * st + int i) v of
                       Inl e \<Rightarrow> (Some e, d)
                     | Inr d' \<Rightarrow> decodeRow_1_loop d' buf j (i + 1))))
      else (None, d))"
  by pat_completeness auto
termination
  by (relation "measure (\<lambda>(d, buf, j, i). nat (width d) - i)")
     (auto dest: width_set_Paletted_Pix)

declare decodeRow_1_loop.simps [simp del]

definition decodeRow_1 :: "decoder \<Rightarrow> byte list \<Rightarrow> int \<Rightarrow> error option \<times> decoder" where
  "decodeRow_1 d buf j = decodeRow_1_loop d buf j 0"

function decodeRow_4_loop :: "decoder \<Rightarrow> byte list \<Rightarrow> int \<Rightarrow> nat \<Rightarrow> error option \<times> decoder" where
  "decodeRow_4_loop d buf j i =
     (if int i < width d then
        (case load buf (int (i div 2)) of
           Inl e \<Rightarrow> (Some e, d)
         | Inr x \<Rightarrow>
             let v = (if even i then drop_bit 4 x else x AND 0x0f) in
             if uint v \<ge> dstPalNumEntries d
             then (Some (FormatError ''palette index out of range''), d)
             else
               (case Paletted_Stride d of
                  Inl e \<Rightarrow> (Some e, d)
                | Inr st \<Rightarrow>
                    (case set_Paletted_Pix d (j * st + int i) v of
                       Inl e \<Rightarrow> (Some e, d)
                     | Inr d' \<Rightarrow> decodeRow_4_loop d' buf j (i + 1))))
      else (None, d))"
  by pat_completeness auto
termination
  by (relation "measure (\<lambda>(d, buf, j, i). nat (width d) - i)")
     (auto dest: width_set_Paletted_Pix)

declare decodeRow_4_loop.simps [simp del]

definition decodeRow_4 :: "decoder \<Rightarrow> byte list \<Rightarrow> int \<Rightarrow> error option \<times> decoder" where
  "decodeRow_4 d buf j = decodeRow_4_loop d buf j 0"

function decodeRow_8_loop :: "decoder \<Rightarrow> byte list \<Rightarrow> int \<Rightarrow> nat \<Rightarrow> error option \<times> decoder" where
  "decodeRow_8_loop d buf j i =
     (if int i < width d then
        (case load buf (int i) of
           Inl e \<Rightarrow> (Some e, d)
         | Inr v \<Rightarrow>
             if uint v \<ge> dstPalNumEntries d
             then (Some (FormatError ''palette index out of range''), d)
             else
               (case Paletted_Stride d of
                  Inl e \<Rightarrow> (Some e, d)
                | Inr st \<Rightarrow>
                    (case set_Paletted_Pix d (j * st + int i) v of
                       Inl e \<Rightarrow> (Some e, d)
                     | Inr d' \<Rightarrow> decodeRow_8_loop d' buf j (i + 1))))
      else (None, d))"
  by pat_completeness auto
termination
  by (relation "measure (\<lambda>(d, buf, j, i). nat (width d) - i)")
     (auto dest: width_set_Paletted_Pix)

declare decodeRow_8_loop.simps [simp del]

definition decodeRow_8 :: "decoder \<Rightarrow> byte list \<Rightarrow> int \<Rightarrow> error option \<times> decoder" where
  "decodeRow_8 d buf j = decodeRow_8_loop d buf j 0"

function decodeRow_24_loop :: "decoder \<Rightarrow> byte list \<Rightarrow> int \<Rightarrow> nat \<Rightarrow> error option \<times> decoder" where
  "decodeRow_24_loop d buf j i =
     (if int i < width d then
        (case load buf (int i * 3 + 0) of
           Inl e \<Rightarrow> (Some e, d)
         | Inr bl \<Rightarrow>
        (case load buf (int i * 3 + 1) of
           Inl e \<Rightarrow> (Some e, d)
         | Inr gr \<Rightarrow>
        (case load buf (int i * 3 + 2) of
           Inl e \<Rightarrow> (Some e, d)
         | Inr rd \<Rightarrow>
        (case NRGBA_Stride d of
           Inl e \<Rightarrow> (Some e, d)
         | Inr st \<Rightarrow>
        (case set_NRGBA_Pix d (j * st + int i * 4 + 0) rd of
           Inl e \<Rightarrow> (Some e, d)
         | Inr d1 \<Rightarrow>
        (case set_NRGBA_Pix d1 (j * st + int i * 4 + 1) gr of
           Inl e \<Rightarrow> (Some e, d1)
         | Inr d2 \<Rightarrow>
        (case set_NRGBA_Pix d2 (j * st + int i * 4 + 2) bl of
           Inl e \<Rightarrow> (Some e, d2)
         | Inr d3 \<Rightarrow>
        (case set_NRGBA_Pix d3 (j * st + int i * 4 + 3) 255 of
           Inl e \<Rightarrow> (Some e, d3)
         | Inr d4 \<Rightarrow> decodeRow_24_loop d4 buf j (i + 1)))))))))
      else (None, d))"
  by pat_completeness auto
termination
  by (relation "measure (\<lambda>(d, buf, j, i). nat (width d) - i)")
     (auto dest!: width_set_NRGBA_Pix)

declare decodeRow_24_loop.simps [simp del]

definition decodeRow_24 :: "decoder \<Rightarrow> byte list \<Rightarrow> int \<Rightarrow> error option \<times> decoder" where
  "decodeRow_24 d buf j = decodeRow_24_loop d buf j 0"

text \<open>
  The row function that \<open>readBits\<close> picks by the bit count is one of these four, so
  the function value is the name of the one it stands for.
\<close>

datatype decodeRowFuncType = DecodeRow_1 | DecodeRow_4 | DecodeRow_8 | DecodeRow_24

fun decodeRowFunc :: "decodeRowFuncType \<Rightarrow> decoder \<Rightarrow> byte list \<Rightarrow> int \<Rightarrow> error option \<times> decoder" where
  "decodeRowFunc DecodeRow_1 = decodeRow_1"
| "decodeRowFunc DecodeRow_4 = decodeRow_4"
| "decodeRowFunc DecodeRow_8 = decodeRow_8"
| "decodeRowFunc DecodeRow_24 = decodeRow_24"

text \<open>
  What a row function leaves alone: every field of the decoder but the two images, and of
  an image everything but the contents of \<open>Pix\<close>.
\<close>

definition same_header :: "decoder \<Rightarrow> decoder \<Rightarrow> bool" where
  "same_header d d' \<longleftrightarrow>
     bfOffBits d' = bfOffBits d \<and> headerSize d' = headerSize d \<and> width d' = width d \<and>
     height d' = height d \<and> bitCount d' = bitCount d \<and> biCompression d' = biCompression d \<and>
     srcPalNumEntries d' = srcPalNumEntries d \<and> srcPalBytesPerEntry d' = srcPalBytesPerEntry d \<and>
     srcPalSizeInBytes d' = srcPalSizeInBytes d \<and> dstPalNumEntries d' = dstPalNumEntries d \<and>
     dstHasPalette d' = dstHasPalette d \<and> dstPalette d' = dstPalette d \<and>
     hasBitfieldsSegment d' = hasBitfieldsSegment d \<and> bitFieldsSize d' = bitFieldsSize d \<and>
     isTopDown d' = isTopDown d"

definition img_frame :: "'a NRGBA_scheme \<Rightarrow> 'a NRGBA_scheme \<Rightarrow> bool" where
  "img_frame p p' \<longleftrightarrow>
     Stride p' = Stride p \<and> Rect p' = Rect p \<and> NRGBA.more p' = NRGBA.more p \<and>
     length (Pix p') = length (Pix p)"

definition pix_frame :: "decoder \<Rightarrow> decoder \<Rightarrow> bool" where
  "pix_frame d d' \<longleftrightarrow>
     same_header d d' \<and> r d' = r d \<and>
     rel_option img_frame (img_Paletted d) (img_Paletted d') \<and>
     rel_option img_frame (img_NRGBA d) (img_NRGBA d')"

lemma img_frame_refl: "img_frame p p"
  by (simp add: img_frame_def)

lemma img_frame_trans: "img_frame p p' \<Longrightarrow> img_frame p' p'' \<Longrightarrow> img_frame p p''"
  by (simp add: img_frame_def)

lemma pix_frame_refl: "pix_frame d d"
  by (simp add: pix_frame_def same_header_def option.rel_refl img_frame_refl)

lemma rel_option_img_frame_trans:
  "rel_option img_frame x y \<Longrightarrow> rel_option img_frame y z \<Longrightarrow> rel_option img_frame x z"
  by (cases x; cases y; cases z) (auto intro: img_frame_trans)

lemma pix_frame_trans: "pix_frame d d' \<Longrightarrow> pix_frame d' d'' \<Longrightarrow> pix_frame d d''"
  unfolding pix_frame_def
  by (auto simp: same_header_def intro: rel_option_img_frame_trans)

lemma pix_frame_set_Paletted_Pix: "set_Paletted_Pix d k v = Inr d' \<Longrightarrow> pix_frame d d'"
  by (auto simp: set_Paletted_Pix_def store_def pix_frame_def same_header_def img_frame_def
      option.rel_refl split: option.splits sum.splits if_splits)

lemma pix_frame_set_NRGBA_Pix: "set_NRGBA_Pix d k v = Inr d' \<Longrightarrow> pix_frame d d'"
  by (auto simp: set_NRGBA_Pix_def store_def pix_frame_def same_header_def img_frame_def
      option.rel_refl split: option.splits sum.splits if_splits)

lemma pix_frame_decodeRow_1_loop: "decodeRow_1_loop d buf j i = (e, d') \<Longrightarrow> pix_frame d d'"
proof (induction d buf j i rule: decodeRow_1_loop.induct)
  case (1 d buf j i)
  from "1.prems" show ?case
    apply (subst (asm) decodeRow_1_loop.simps)
    apply (simp add: Let_def pix_frame_refl split: if_splits sum.splits)
    apply (auto simp: pix_frame_refl
        intro: pix_frame_trans [OF pix_frame_set_Paletted_Pix "1.IH"])
    done
qed

lemma pix_frame_decodeRow_4_loop: "decodeRow_4_loop d buf j i = (e, d') \<Longrightarrow> pix_frame d d'"
proof (induction d buf j i rule: decodeRow_4_loop.induct)
  case (1 d buf j i)
  from "1.prems" show ?case
    apply (subst (asm) decodeRow_4_loop.simps)
    apply (simp add: Let_def pix_frame_refl split: if_splits sum.splits)
    apply (auto simp: pix_frame_refl
        intro: pix_frame_trans [OF pix_frame_set_Paletted_Pix "1.IH"])
    done
qed

lemma pix_frame_decodeRow_8_loop: "decodeRow_8_loop d buf j i = (e, d') \<Longrightarrow> pix_frame d d'"
proof (induction d buf j i rule: decodeRow_8_loop.induct)
  case (1 d buf j i)
  from "1.prems" show ?case
    apply (subst (asm) decodeRow_8_loop.simps)
    apply (simp add: Let_def pix_frame_refl split: if_splits sum.splits)
    apply (auto simp: pix_frame_refl
        intro: pix_frame_trans [OF pix_frame_set_Paletted_Pix "1.IH"])
    done
qed

lemma pix_frame_decodeRow_24_loop: "decodeRow_24_loop d buf j i = (e, d') \<Longrightarrow> pix_frame d d'"
proof (induction d buf j i rule: decodeRow_24_loop.induct)
  case (1 d buf j i)
  note step = pix_frame_set_NRGBA_Pix
  from "1.prems" show ?case
    apply (subst (asm) decodeRow_24_loop.simps)
    apply (simp add: Let_def pix_frame_refl split: if_splits sum.splits)
    apply (auto simp: pix_frame_refl
        intro: step pix_frame_trans [OF step] pix_frame_trans [OF step pix_frame_trans [OF step]]
          pix_frame_trans [OF step pix_frame_trans [OF step pix_frame_trans [OF step]]]
          pix_frame_trans [OF step pix_frame_trans [OF step pix_frame_trans [OF step
            pix_frame_trans [OF step "1.IH"]]]])
    done
qed

lemma pix_frame_decodeRowFunc: "decodeRowFunc f d buf j = (e, d') \<Longrightarrow> pix_frame d d'"
  by (cases f)
     (auto simp: decodeRow_1_def decodeRow_4_def decodeRow_8_def decodeRow_24_def
       dest: pix_frame_decodeRow_1_loop pix_frame_decodeRow_4_loop pix_frame_decodeRow_8_loop
         pix_frame_decodeRow_24_loop)

lemma height_decodeRowFunc: "decodeRowFunc f d buf j = (e, d') \<Longrightarrow> height d' = height d"
  by (drule pix_frame_decodeRowFunc) (simp add: pix_frame_def same_header_def)

function readBits_loop :: "decodeRowFuncType \<Rightarrow> decoder \<Rightarrow> nat \<Rightarrow> nat \<Rightarrow> error option \<times> decoder" where
  "readBits_loop f d srcRowStride srcRow =
     (if int srcRow < height d then
        let dstRow = (if isTopDown d then int srcRow else height d - int srcRow - 1) in
        (case ReadFull (r d) srcRowStride of
           (Inl err, rd) \<Rightarrow> (Some err, d\<lparr>r := rd\<rparr>)
         | (Inr buf, rd) \<Rightarrow>
             (case decodeRowFunc f (d\<lparr>r := rd\<rparr>) buf dstRow of
                (Some err, d') \<Rightarrow> (Some err, d')
              | (None, d') \<Rightarrow> readBits_loop f d' srcRowStride (srcRow + 1)))
      else (None, d))"
  by pat_completeness auto
termination
  by (relation "measure (\<lambda>(f, d, srcRowStride, srcRow). nat (height d) - srcRow)")
     (auto dest!: height_decodeRowFunc [OF sym])

declare readBits_loop.simps [simp del]

definition readBits :: "decoder \<Rightarrow> error option \<times> decoder" where
  "readBits d =
     (let srcRowStride = ((width d * bitCount d + 31) div 32) * 4 in
      if bitCount d = 1 then readBits_loop DecodeRow_1 d (nat srcRowStride) 0
      else if bitCount d = 4 then readBits_loop DecodeRow_4 d (nat srcRowStride) 0
      else if bitCount d = 8 then readBits_loop DecodeRow_8 d (nat srcRowStride) 0
      else if bitCount d = 24 then readBits_loop DecodeRow_24 d (nat srcRowStride) 0
      else (None, d))"

subsection \<open>The gap before the bits\<close>

function skipBytes :: "decoder \<Rightarrow> int \<Rightarrow> error option \<times> decoder" where
  "skipBytes d n =
     (if n > 0 then
        let bytesToRead = (if 1024 > n then n else 1024) in
        (case ReadFull (r d) (nat bytesToRead) of
           (Inl err, rd) \<Rightarrow> (Some err, d\<lparr>r := rd\<rparr>)
         | (Inr buf, rd) \<Rightarrow> skipBytes (d\<lparr>r := rd\<rparr>) (n - bytesToRead))
      else (None, d))"
  by pat_completeness auto
termination
  by (relation "measure (\<lambda>(d, n). nat n)") auto

declare skipBytes.simps [simp del]

definition readGap :: "decoder \<Rightarrow> error option \<times> decoder" where
  "readGap d =
     (let currentOffset = 14 + uint (headerSize d) + bitFieldsSize d + srcPalSizeInBytes d in
      if currentOffset = uint (bfOffBits d) then (None, d)
      else if currentOffset > uint (bfOffBits d) then (Some (FormatError ''bad bfOffBits field''), d)
      else skipBytes d (uint (bfOffBits d) - currentOffset))"

subsection \<open>Decode\<close>

text \<open>The block of \<open>Decode\<close> that creates the target image.\<close>

definition createTargetImage :: "decoder \<Rightarrow> error + decoder" where
  "createTargetImage d =
     (if dstHasPalette d
      then (case NewPaletted (image_Rect 0 0 (width d) (height d)) (dstPalette d) of
              Inl e \<Rightarrow> Inl e
            | Inr p \<Rightarrow> Inr (d\<lparr>img_Paletted := Some p\<rparr>))
      else (case NewNRGBA (image_Rect 0 0 (width d) (height d)) of
              Inl e \<Rightarrow> Inl e
            | Inr p \<Rightarrow> Inr (d\<lparr>img_NRGBA := Some p\<rparr>)))"

text \<open>
  \<open>Decode\<close> returns the image or the error, and, as its second component, what is left
  of the reader. The image it returns is the pointer \<^verbatim>\<open>d.img_Paletted\<close> or
  \<^verbatim>\<open>d.img_NRGBA\<close>.
\<close>

definition Decode :: "byte list \<Rightarrow> (error + image) \<times> byte list" where
  "Decode rd =
     (case readHeaders (new_decoder rd) False of
        (Some err, d) \<Rightarrow> (Inl err, r d)
      | (None, d) \<Rightarrow>
          if biCompression d \<noteq> bI_RGB
          then (Inl (UnsupportedError
                  (''compression or image type '' @ sprint_d (uint (biCompression d)))), r d)
          else if bitCount d \<noteq> 1 \<and> bitCount d \<noteq> 4 \<and> bitCount d \<noteq> 8 \<and> bitCount d \<noteq> 24
          then (Inl (UnsupportedError (''bit count '' @ sprint_d (bitCount d))), r d)
          else
            (case (if srcPalNumEntries d > 0 then readPalette d else (None, d)) of
               (Some err, d) \<Rightarrow> (Inl err, r d)
             | (None, d) \<Rightarrow>
                 (case createTargetImage d of
                    Inl e \<Rightarrow> (Inl e, r d)
                  | Inr d \<Rightarrow>
                      (case readGap d of
                         (Some err, d) \<Rightarrow> (Inl err, r d)
                       | (None, d) \<Rightarrow>
                           (case readBits d of
                              (Some err, d) \<Rightarrow> (Inl err, r d)
                            | (None, d) \<Rightarrow>
                                if dstHasPalette d
                                then (Inr (Image_Paletted (img_Paletted d)), r d)
                                else (Inr (Image_NRGBA (img_NRGBA d)), r d))))))"

section \<open>Properties\<close>

subsection \<open>Reading and slicing\<close>

lemma nth_slice: "k < j - i \<Longrightarrow> j \<le> length b \<Longrightarrow> slice b i j ! k = b ! (i + k)"
  by (simp add: slice_def)

lemma ReadFull_enough: "n \<le> length rd \<Longrightarrow> ReadFull rd n = (Inr (take n rd), drop n rd)"
  by (simp add: ReadFull_def)

lemma ReadFull_short:
  "length rd < n \<Longrightarrow> ReadFull rd n = (Inl (if rd = [] then EOF else ErrUnexpectedEOF), [])"
  by (simp add: ReadFull_def)

subsection \<open>The signature\<close>

lemma readHeaders_short:
  "length (r d) < 18 \<Longrightarrow>
   readHeaders d c = (Some (if r d = [] then EOF else ErrUnexpectedEOF), d\<lparr>r := []\<rparr>)"
  by (simp add: readHeaders_def ReadFull_short)

lemma readHeaders_bad_signature:
  "18 \<le> length (r d) \<Longrightarrow> r d ! 0 \<noteq> 0x42 \<or> r d ! 1 \<noteq> 0x4d \<Longrightarrow>
   readHeaders d c = (Some (FormatError ''not a BMP file''), d\<lparr>r := drop 18 (r d)\<rparr>)"
  by (auto simp add: readHeaders_def ReadFull_enough decodeFileHeader_def nth_slice)

subsection \<open>Little-endian fields\<close>

lemma or_push_bit_int:
  "0 \<le> k \<Longrightarrow> k < 2 ^ n \<Longrightarrow> k OR push_bit n l = k + 2 ^ n * (l::int)"
  using concat_bit_eq [of n k l] by (simp add: concat_bit_def take_bit_int_eq_self push_bit_eq_mult)

lemma uint_byte_bounds: "0 \<le> uint (b::byte)" "uint (b::byte) < 256"
  using uint_bounded [of b] by simp_all

lemma uint_ucast_byte: "uint (ucast (b::byte) :: uint32) = uint b"
  using uint_byte_bounds [of b] by (simp add: unsigned_ucast_eq take_bit_int_eq_self)

lemma uint_push_bit_byte:
  "n \<le> 24 \<Longrightarrow> uint (push_bit n (ucast (b::byte)) :: uint32) = push_bit n (uint b)"
proof -
  assume n: "n \<le> 24"
  have "uint b < 2 ^ 8" using uint_byte_bounds [of b] by simp
  then have "push_bit n (uint b) < push_bit n (2 ^ 8)"
    by (simp add: push_bit_eq_mult)
  also have "\<dots> \<le> (2::int) ^ 32"
    using n power_increasing [of "n + 8" 32 "2::int"]
    by (simp add: push_bit_eq_mult power_add mult.commute)
  finally have "push_bit n (uint b) < (2::int) ^ 32" .
  then show ?thesis
    using uint_byte_bounds [of b]
    by (simp add: unsigned_push_bit_eq uint_ucast_byte take_bit_int_eq_self)
qed

lemma getWORD_le: "uint (getWORD b) = uint (b ! 0) + 256 * uint (b ! 1)"
  using uint_byte_bounds [of "b ! 0"] or_push_bit_int [of "uint (b ! 0)" 8 "uint (b ! 1)"]
  by (simp add: getWORD_def uint_or uint_ucast_byte uint_push_bit_byte)

lemma getDWORD_le:
  "uint (getDWORD b) =
     uint (b ! 0) + 256 * uint (b ! 1) + 65536 * uint (b ! 2) + 16777216 * uint (b ! 3)"
proof -
  let ?b0 = "b ! 0" and ?b1 = "b ! 1" and ?b2 = "b ! 2" and ?b3 = "b ! 3"
  have 1: "uint ?b0 OR push_bit 8 (uint ?b1) = uint ?b0 + 256 * uint ?b1"
    using uint_byte_bounds [of ?b0] or_push_bit_int [of "uint ?b0" 8 "uint ?b1"] by simp
  have 2: "(uint ?b0 + 256 * uint ?b1) OR push_bit 16 (uint ?b2) =
      uint ?b0 + 256 * uint ?b1 + 65536 * uint ?b2"
    using uint_byte_bounds [of ?b0] uint_byte_bounds [of ?b1]
      or_push_bit_int [of "uint ?b0 + 256 * uint ?b1" 16 "uint ?b2"] by simp
  have 3: "(uint ?b0 + 256 * uint ?b1 + 65536 * uint ?b2) OR push_bit 24 (uint ?b3) =
      uint ?b0 + 256 * uint ?b1 + 65536 * uint ?b2 + 16777216 * uint ?b3"
    using uint_byte_bounds [of ?b0] uint_byte_bounds [of ?b1] uint_byte_bounds [of ?b2]
      or_push_bit_int [of "uint ?b0 + 256 * uint ?b1 + 65536 * uint ?b2" 24 "uint ?b3"] by simp
  have "uint (getDWORD b) =
      ((uint ?b0 OR push_bit 8 (uint ?b1)) OR push_bit 16 (uint ?b2)) OR push_bit 24 (uint ?b3)"
    by (simp add: getDWORD_def uint_or uint_ucast_byte uint_push_bit_byte or.assoc)
  then show ?thesis
    by (simp only: 1 2 3)
qed

subsection \<open>The paths through the header\<close>

lemma slice_take: "j \<le> n \<Longrightarrow> slice (take n b) i j = slice b i j"
  by (simp add: slice_def drop_take min_def)

lemma slice_slice0: "j \<le> n \<Longrightarrow> slice (slice b 0 n) i j = slice b i j"
  by (simp add: slice_def drop_take min_def)

lemma slice_header:
  "4 \<le> i \<Longrightarrow> j \<le> 40 \<Longrightarrow> i \<le> j \<Longrightarrow> 54 \<le> length b \<Longrightarrow>
   slice (replicate 4 0 @ take 36 (drop 18 b)) i j = slice b (i + 14) (j + 14)"
  by (simp add: slice_def drop_take min_def add.commute)

lemma decodeInfoHeader40_bad_width:
  "sint (getDWORD (slice h 4 8)) < 1 \<Longrightarrow>
   decodeInfoHeader40 d h c =
     (Some (FormatError (''bad width '' @ sprint_d (sint (getDWORD (slice h 4 8))))),
      d\<lparr>width := sint (getDWORD (slice h 4 8))\<rparr>)"
  by (simp add: decodeInfoHeader40_def Let_def)

lemma decodeInfoHeader40_bad_height:
  "1 \<le> sint (getDWORD (slice h 4 8)) \<Longrightarrow> sint (getDWORD (slice h 8 12)) = 0 \<Longrightarrow>
   decodeInfoHeader40 d h c =
     (Some (FormatError (''bad height '' @ sprint_d 0)),
      d\<lparr>width := sint (getDWORD (slice h 4 8)), height := 0\<rparr>)"
  by (simp add: decodeInfoHeader40_def Let_def)

lemma decodeInfoHeader40_config:
  assumes "1 \<le> sint (getDWORD (slice h 4 8))" "sint (getDWORD (slice h 8 12)) \<noteq> 0"
  shows "decodeInfoHeader40 d h True =
     (None, d\<lparr>width := sint (getDWORD (slice h 4 8)),
              isTopDown := isTopDown d \<or> sint (getDWORD (slice h 8 12)) < 0,
              height := \<bar>sint (getDWORD (slice h 8 12))\<bar>,
              bitCount := uint (getWORD (slice h 14 16))\<rparr>)"
proof (cases "sint (getDWORD (slice h 8 12)) < 0")
  case True
  with assms show ?thesis by (simp add: decodeInfoHeader40_def Let_def)
next
  case False
  with assms show ?thesis by (simp add: decodeInfoHeader40_def Let_def)
qed


lemma decodeInfoHeader40_bad_compression:
  assumes "1 \<le> sint (getDWORD (slice h 4 8))" "sint (getDWORD (slice h 8 12)) \<noteq> 0"
    "getDWORD (slice h 16 20) \<notin> {bI_RGB, bI_RLE8, bI_RLE4, bI_BITFIELDS}"
  shows "fst (decodeInfoHeader40 d h False) =
     Some (UnsupportedError
       (''compression or image type '' @ sprint_d (uint (getDWORD (slice h 16 20)))))"
  using assms by (simp add: decodeInfoHeader40_def Let_def)

lemma decodeInfoHeader40_bad_palette_size:
  assumes "1 \<le> sint (getDWORD (slice h 4 8))" "sint (getDWORD (slice h 8 12)) \<noteq> 0"
    "getDWORD (slice h 16 20) \<in> {bI_RGB, bI_RLE8, bI_RLE4, bI_BITFIELDS}"
    "10000 < getDWORD (slice h 32 36)"
  shows "fst (decodeInfoHeader40 d h False) =
     Some (FormatError (''bad palette size '' @ sprint_d (uint (getDWORD (slice h 32 36)))))"
  using assms(3,1,2,4)
  apply (elim insertE emptyE)
  apply (cases "sint (getDWORD (slice h 8 12)) < 0"; cases "headerSize d = 40";
         simp add: decodeInfoHeader40_def Let_def bI_RGB_def bI_RLE8_def bI_RLE4_def
           bI_BITFIELDS_def split del: if_split)+
  done

lemma decodeInfoHeader40_full:
  assumes "1 \<le> sint (getDWORD (slice h 4 8))" "sint (getDWORD (slice h 8 12)) \<noteq> 0"
    "getDWORD (slice h 16 20) \<in> {bI_RGB, bI_RLE8, bI_RLE4, bI_BITFIELDS}"
    "\<not> 10000 < getDWORD (slice h 32 36)"
  shows "decodeInfoHeader40 d h False =
     (None, d\<lparr>width := sint (getDWORD (slice h 4 8)),
              isTopDown := isTopDown d \<or> sint (getDWORD (slice h 8 12)) < 0,
              height := \<bar>sint (getDWORD (slice h 8 12))\<bar>,
              bitCount := uint (getWORD (slice h 14 16)),
              biCompression := getDWORD (slice h 16 20),
              hasBitfieldsSegment := hasBitfieldsSegment d \<or>
                (getDWORD (slice h 16 20) = bI_BITFIELDS \<and> headerSize d = 40),
              bitFieldsSize :=
                (if getDWORD (slice h 16 20) = bI_BITFIELDS \<and> headerSize d = 40 then 12
                 else bitFieldsSize d),
              srcPalBytesPerEntry := 4,
              srcPalNumEntries :=
                (if 1 \<le> uint (getWORD (slice h 14 16)) \<and> uint (getWORD (slice h 14 16)) \<le> 8 \<and>
                    getDWORD (slice h 32 36) = 0
                 then 2 ^ nat (uint (getWORD (slice h 14 16)))
                 else uint (getDWORD (slice h 32 36)))\<rparr>)"
  using assms(3,1,2,4)
  apply (elim insertE emptyE)
  apply (cases "sint (getDWORD (slice h 8 12)) < 0"; cases "headerSize d = 40";
         cases "1 \<le> uint (getWORD (slice h 14 16))"; cases "uint (getWORD (slice h 14 16)) \<le> 8";
         cases "getDWORD (slice h 32 36) = 0";
         simp add: decodeInfoHeader40_def Let_def push_bit_of_1 bI_RGB_def bI_RLE8_def bI_RLE4_def
           bI_BITFIELDS_def split del: if_split)+
  done


lemma readHeaders_unfold:
  assumes "54 \<le> length (r d)" "r d ! 0 = 0x42" "r d ! 1 = 0x4d"
    "getDWORD (slice (r d) 14 18) = 40"
  shows "readHeaders d c =
    (case decodeInfoHeader40
            (d\<lparr>bfOffBits := getDWORD (slice (r d) 10 14), headerSize := 40, r := drop 54 (r d)\<rparr>)
            (replicate 4 0 @ take 36 (drop 18 (r d))) c of
       (Some err, d') \<Rightarrow> (Some err, d')
     | (None, d') \<Rightarrow>
         (None, (if 1 \<le> bitCount d' \<and> bitCount d' \<le> 8 then d'\<lparr>dstHasPalette := True\<rparr> else d')
                  \<lparr>srcPalSizeInBytes := srcPalNumEntries d' * srcPalBytesPerEntry d'\<rparr>))"
proof -
  obtain e d' where *: "decodeInfoHeader40
            (d\<lparr>bfOffBits := getDWORD (slice (r d) 10 14), headerSize := 40, r := drop 54 (r d)\<rparr>)
            (replicate 4 0 @ take 36 (drop 18 (r d))) c = (e, d')"
    by (cases "decodeInfoHeader40
            (d\<lparr>bfOffBits := getDWORD (slice (r d) 10 14), headerSize := 40, r := drop 54 (r d)\<rparr>)
            (replicate 4 0 @ take 36 (drop 18 (r d))) c")
  show ?thesis
    using assms
    by (cases e)
       (simp_all add: readHeaders_def ReadFull_enough decodeFileHeader_def nth_slice slice_take
         slice_slice0 readInfoHeader_def Let_def *)
qed

lemma readHeaders_wrong_size:
  assumes "18 \<le> length (r d)" "r d ! 0 = 0x42" "r d ! 1 = 0x4d"
    "getDWORD (slice (r d) 14 18) \<noteq> 40"
  shows "fst (readHeaders d c) =
    Some (UnsupportedError
      (''BMP version (header size '' @ sprint_d (uint (getDWORD (slice (r d) 14 18))) @ '')''))"
  using assms
  by (simp add: readHeaders_def ReadFull_enough decodeFileHeader_def nth_slice slice_take
      slice_slice0)

lemma readHeaders_short_header:
  assumes "18 \<le> length (r d)" "length (r d) < 54" "r d ! 0 = 0x42" "r d ! 1 = 0x4d"
    "getDWORD (slice (r d) 14 18) = 40"
  shows "readHeaders d c =
    (Some (if length (r d) = 18 then EOF else ErrUnexpectedEOF),
     d\<lparr>bfOffBits := getDWORD (slice (r d) 10 14), headerSize := 40, r := []\<rparr>)"
  using assms
  by (simp add: readHeaders_def ReadFull_enough decodeFileHeader_def nth_slice slice_take
      slice_slice0 readInfoHeader_def ReadFull_short)


lemma readHeaders_None:
  assumes "readHeaders d c = (None, d')"
  shows "54 \<le> length (r d) \<and> r d ! 0 = 0x42 \<and> r d ! 1 = 0x4d \<and>
    getDWORD (slice (r d) 14 18) = 40"
proof -
  have 1: "18 \<le> length (r d)"
    using assms readHeaders_short [of d c] by (cases "length (r d) < 18") auto
  have 2: "r d ! 0 = 0x42 \<and> r d ! 1 = 0x4d"
    using assms 1 readHeaders_bad_signature [of d c] by auto
  have 3: "getDWORD (slice (r d) 14 18) = 40"
    using assms 1 2 readHeaders_wrong_size [of d c] by (cases "getDWORD (slice (r d) 14 18) = 40") auto
  have 4: "54 \<le> length (r d)"
    using assms 1 2 3 readHeaders_short_header [of d c] by (cases "length (r d) < 54") auto
  from 1 2 3 4 show ?thesis by simp
qed

subsection \<open>The header of a file\<close>

text \<open>
  The header fields of a file \<open>a\<close>, at the offsets where \<open>readHeaders\<close> reads them:
  the info header starts at byte 14, so \<^verbatim>\<open>h[4:8]\<close> is \<open>slice a 18 22\<close>, and so on.
\<close>

definition bfOffBits_of :: "byte list \<Rightarrow> uint32" where
  "bfOffBits_of a = getDWORD (slice a 10 14)"

definition biSize_of :: "byte list \<Rightarrow> uint32" where
  "biSize_of a = getDWORD (slice a 14 18)"

definition biWidth_of :: "byte list \<Rightarrow> int" where
  "biWidth_of a = sint (getDWORD (slice a 18 22))"

definition biHeight_of :: "byte list \<Rightarrow> int" where
  "biHeight_of a = sint (getDWORD (slice a 22 26))"

definition biBitCount_of :: "byte list \<Rightarrow> int" where
  "biBitCount_of a = uint (getWORD (slice a 28 30))"

definition biCompression_of :: "byte list \<Rightarrow> uint32" where
  "biCompression_of a = getDWORD (slice a 30 34)"

definition biClrUsed_of :: "byte list \<Rightarrow> uint32" where
  "biClrUsed_of a = getDWORD (slice a 46 50)"

definition header_ok :: "byte list \<Rightarrow> bool" where
  "header_ok a \<longleftrightarrow> 54 \<le> length a \<and> a ! 0 = 0x42 \<and> a ! 1 = 0x4d \<and> biSize_of a = 40"

definition srcPal_of :: "byte list \<Rightarrow> int" where
  "srcPal_of a =
     (if 1 \<le> biBitCount_of a \<and> biBitCount_of a \<le> 8 \<and> biClrUsed_of a = 0
      then 2 ^ nat (biBitCount_of a) else uint (biClrUsed_of a))"

text \<open>The decoder after \<open>readHeaders\<close> has accepted the header, in either mode.\<close>

definition config_header_state :: "byte list \<Rightarrow> decoder" where
  "config_header_state a =
     \<lparr>r = drop 54 a, img_Paletted = None, img_NRGBA = None, bfOffBits = bfOffBits_of a,
      headerSize = 40, width = biWidth_of a, height = \<bar>biHeight_of a\<bar>,
      bitCount = biBitCount_of a, biCompression = 0, srcPalNumEntries = 0,
      srcPalBytesPerEntry = 0, srcPalSizeInBytes = 0, dstPalNumEntries = 0,
      dstHasPalette = (1 \<le> biBitCount_of a \<and> biBitCount_of a \<le> 8), dstPalette = [],
      hasBitfieldsSegment = False, bitFieldsSize = 0, isTopDown = (biHeight_of a < 0)\<rparr>"

definition full_header_state :: "byte list \<Rightarrow> decoder" where
  "full_header_state a =
     \<lparr>r = drop 54 a, img_Paletted = None, img_NRGBA = None, bfOffBits = bfOffBits_of a,
      headerSize = 40, width = biWidth_of a, height = \<bar>biHeight_of a\<bar>,
      bitCount = biBitCount_of a, biCompression = biCompression_of a,
      srcPalNumEntries = srcPal_of a, srcPalBytesPerEntry = 4,
      srcPalSizeInBytes = srcPal_of a * 4, dstPalNumEntries = 0,
      dstHasPalette = (1 \<le> biBitCount_of a \<and> biBitCount_of a \<le> 8), dstPalette = [],
      hasBitfieldsSegment = (biCompression_of a = bI_BITFIELDS),
      bitFieldsSize = (if biCompression_of a = bI_BITFIELDS then 12 else 0),
      isTopDown = (biHeight_of a < 0)\<rparr>"

lemmas field_defs =
  bfOffBits_of_def biSize_of_def biWidth_of_def biHeight_of_def biBitCount_of_def
  biCompression_of_def biClrUsed_of_def

lemma readHeaders_fst:
  assumes "header_ok (r d)"
  shows "fst (readHeaders d c) =
    fst (decodeInfoHeader40
          (d\<lparr>bfOffBits := getDWORD (slice (r d) 10 14), headerSize := 40, r := drop 54 (r d)\<rparr>)
          (replicate 4 0 @ take 36 (drop 18 (r d))) c)"
proof -
  obtain e d' where "decodeInfoHeader40
          (d\<lparr>bfOffBits := getDWORD (slice (r d) 10 14), headerSize := 40, r := drop 54 (r d)\<rparr>)
          (replicate 4 0 @ take 36 (drop 18 (r d))) c = (e, d')"
    by (cases "decodeInfoHeader40
          (d\<lparr>bfOffBits := getDWORD (slice (r d) 10 14), headerSize := 40, r := drop 54 (r d)\<rparr>)
          (replicate 4 0 @ take 36 (drop 18 (r d))) c")
  then show ?thesis
    using assms readHeaders_unfold [of d c]
    by (cases e) (simp_all add: header_ok_def biSize_of_def)
qed

lemma readHeaders_bad_width:
  assumes "header_ok a" "biWidth_of a < 1"
  shows "fst (readHeaders (new_decoder a) c) =
    Some (FormatError (''bad width '' @ sprint_d (biWidth_of a)))"
proof -
  have "54 \<le> length a" using assms(1) by (simp add: header_ok_def)
  then have h: "slice (replicate 4 0 @ take 36 (drop 18 a)) 4 8 = slice a 18 22"
    using slice_header [of 4 8 a] by simp
  have ok: "header_ok (r (new_decoder a))" using assms(1) by (simp add: new_decoder_def)
  have a: "r (new_decoder a) = a" by (simp add: new_decoder_def)
  show ?thesis
    using assms(2)
    by (simp add: readHeaders_fst [OF ok] a h decodeInfoHeader40_bad_width biWidth_of_def)
qed

lemma readHeaders_bad_height:
  assumes "header_ok a" "1 \<le> biWidth_of a" "biHeight_of a = 0"
  shows "fst (readHeaders (new_decoder a) c) =
    Some (FormatError (''bad height '' @ sprint_d 0))"
proof -
  have "54 \<le> length a" using assms(1) by (simp add: header_ok_def)
  then have h: "slice (replicate 4 0 @ take 36 (drop 18 a)) 4 8 = slice a 18 22"
    "slice (replicate 4 0 @ take 36 (drop 18 a)) 8 12 = slice a 22 26"
    using slice_header [of 4 8 a] slice_header [of 8 12 a] by simp_all
  have ok: "header_ok (r (new_decoder a))" using assms(1) by (simp add: new_decoder_def)
  have a: "r (new_decoder a) = a" by (simp add: new_decoder_def)
  show ?thesis
    using assms(2,3)
    by (simp add: readHeaders_fst [OF ok] a h decodeInfoHeader40_bad_height biWidth_of_def
        biHeight_of_def)
qed

lemma readHeaders_bad_compression:
  assumes "header_ok a" "1 \<le> biWidth_of a" "biHeight_of a \<noteq> 0"
    "biCompression_of a \<notin> {bI_RGB, bI_RLE8, bI_RLE4, bI_BITFIELDS}"
  shows "fst (readHeaders (new_decoder a) False) =
    Some (UnsupportedError
      (''compression or image type '' @ sprint_d (uint (biCompression_of a))))"
proof -
  have "54 \<le> length a" using assms(1) by (simp add: header_ok_def)
  then have h: "slice (replicate 4 0 @ take 36 (drop 18 a)) 4 8 = slice a 18 22"
    "slice (replicate 4 0 @ take 36 (drop 18 a)) 8 12 = slice a 22 26"
    "slice (replicate 4 0 @ take 36 (drop 18 a)) 16 20 = slice a 30 34"
    using slice_header [of 4 8 a] slice_header [of 8 12 a] slice_header [of 16 20 a]
    by simp_all
  have ok: "header_ok (r (new_decoder a))" using assms(1) by (simp add: new_decoder_def)
  have a: "r (new_decoder a) = a" by (simp add: new_decoder_def)
  show ?thesis
    using assms(2,3,4)
    by (simp add: readHeaders_fst [OF ok] a h decodeInfoHeader40_bad_compression field_defs)
qed

lemma readHeaders_bad_palette_size:
  assumes "header_ok a" "1 \<le> biWidth_of a" "biHeight_of a \<noteq> 0"
    "biCompression_of a \<in> {bI_RGB, bI_RLE8, bI_RLE4, bI_BITFIELDS}"
    "10000 < biClrUsed_of a"
  shows "fst (readHeaders (new_decoder a) False) =
    Some (FormatError (''bad palette size '' @ sprint_d (uint (biClrUsed_of a))))"
proof -
  have "54 \<le> length a" using assms(1) by (simp add: header_ok_def)
  then have h: "slice (replicate 4 0 @ take 36 (drop 18 a)) 4 8 = slice a 18 22"
    "slice (replicate 4 0 @ take 36 (drop 18 a)) 8 12 = slice a 22 26"
    "slice (replicate 4 0 @ take 36 (drop 18 a)) 16 20 = slice a 30 34"
    "slice (replicate 4 0 @ take 36 (drop 18 a)) 32 36 = slice a 46 50"
    using slice_header [of 4 8 a] slice_header [of 8 12 a] slice_header [of 16 20 a]
      slice_header [of 32 36 a]
    by simp_all
  have ok: "header_ok (r (new_decoder a))" using assms(1) by (simp add: new_decoder_def)
  have a: "r (new_decoder a) = a" by (simp add: new_decoder_def)
  show ?thesis
    using assms(2,3,4,5) decodeInfoHeader40_bad_palette_size
      [of "replicate 4 0 @ take 36 (drop 18 a)"]
    by (simp add: readHeaders_fst [OF ok] a h field_defs)
qed

lemma readHeaders_config_ok:
  assumes "header_ok a" "1 \<le> biWidth_of a" "biHeight_of a \<noteq> 0"
  shows "readHeaders (new_decoder a) True = (None, config_header_state a)"
proof -
  have "54 \<le> length a" using assms(1) by (simp add: header_ok_def)
  then have h: "slice (replicate 4 0 @ take 36 (drop 18 a)) 4 8 = slice a 18 22"
    "slice (replicate 4 0 @ take 36 (drop 18 a)) 8 12 = slice a 22 26"
    "slice (replicate 4 0 @ take 36 (drop 18 a)) 14 16 = slice a 28 30"
    using slice_header [of 4 8 a] slice_header [of 8 12 a] slice_header [of 14 16 a]
    by simp_all
  have a: "r (new_decoder a) = a" by (simp add: new_decoder_def)
  have u: "readHeaders (new_decoder a) True =
    (case decodeInfoHeader40
            ((new_decoder a)\<lparr>bfOffBits := getDWORD (slice a 10 14), headerSize := 40,
               r := drop 54 a\<rparr>)
            (replicate 4 0 @ take 36 (drop 18 a)) True of
       (Some err, d') \<Rightarrow> (Some err, d')
     | (None, d') \<Rightarrow>
         (None, (if 1 \<le> bitCount d' \<and> bitCount d' \<le> 8 then d'\<lparr>dstHasPalette := True\<rparr> else d')
                  \<lparr>srcPalSizeInBytes := srcPalNumEntries d' * srcPalBytesPerEntry d'\<rparr>))"
    using assms(1) readHeaders_unfold [of "new_decoder a" True]
    by (simp add: a header_ok_def biSize_of_def)
  show ?thesis
    using assms(2,3)
    by (subst u)
       (simp add: decodeInfoHeader40_config h field_defs new_decoder_def
         config_header_state_def)
qed

lemma readHeaders_full_ok:
  assumes "header_ok a" "1 \<le> biWidth_of a" "biHeight_of a \<noteq> 0"
    "biCompression_of a \<in> {bI_RGB, bI_RLE8, bI_RLE4, bI_BITFIELDS}"
    "\<not> 10000 < biClrUsed_of a"
  shows "readHeaders (new_decoder a) False = (None, full_header_state a)"
proof -
  have "54 \<le> length a" using assms(1) by (simp add: header_ok_def)
  then have h: "slice (replicate 4 0 @ take 36 (drop 18 a)) 4 8 = slice a 18 22"
    "slice (replicate 4 0 @ take 36 (drop 18 a)) 8 12 = slice a 22 26"
    "slice (replicate 4 0 @ take 36 (drop 18 a)) 14 16 = slice a 28 30"
    "slice (replicate 4 0 @ take 36 (drop 18 a)) 16 20 = slice a 30 34"
    "slice (replicate 4 0 @ take 36 (drop 18 a)) 32 36 = slice a 46 50"
    using slice_header [of 4 8 a] slice_header [of 8 12 a] slice_header [of 14 16 a]
      slice_header [of 16 20 a] slice_header [of 32 36 a]
    by simp_all
  have a: "r (new_decoder a) = a" by (simp add: new_decoder_def)
  have u: "readHeaders (new_decoder a) False =
    (case decodeInfoHeader40
            ((new_decoder a)\<lparr>bfOffBits := getDWORD (slice a 10 14), headerSize := 40,
               r := drop 54 a\<rparr>)
            (replicate 4 0 @ take 36 (drop 18 a)) False of
       (Some err, d') \<Rightarrow> (Some err, d')
     | (None, d') \<Rightarrow>
         (None, (if 1 \<le> bitCount d' \<and> bitCount d' \<le> 8 then d'\<lparr>dstHasPalette := True\<rparr> else d')
                  \<lparr>srcPalSizeInBytes := srcPalNumEntries d' * srcPalBytesPerEntry d'\<rparr>))"
    using assms(1) readHeaders_unfold [of "new_decoder a" False]
    by (simp add: a header_ok_def biSize_of_def)
  note f = decodeInfoHeader40_full [of "replicate 4 0 @ take 36 (drop 18 a)", unfolded h,
      OF assms(2,3,4,5) [unfolded field_defs]]
  show ?thesis
    by (subst u, subst f)
       (simp add: field_defs new_decoder_def full_header_state_def srcPal_of_def)
qed

lemma readHeaders_header_ok:
  assumes "readHeaders (new_decoder a) c = (None, d)"
  shows "header_ok a"
  using readHeaders_None [OF assms] by (simp add: header_ok_def biSize_of_def new_decoder_def)

lemma readHeaders_config_None:
  assumes "readHeaders (new_decoder a) True = (None, d)"
  shows "header_ok a \<and> 1 \<le> biWidth_of a \<and> biHeight_of a \<noteq> 0 \<and> d = config_header_state a"
proof -
  note ok = readHeaders_header_ok [OF assms]
  have w: "1 \<le> biWidth_of a"
    using assms readHeaders_bad_width [OF ok, of True] by (cases "biWidth_of a < 1") auto
  have hg: "biHeight_of a \<noteq> 0"
    using assms readHeaders_bad_height [OF ok w, of True] by (cases "biHeight_of a = 0") auto
  show ?thesis
    using assms ok w hg readHeaders_config_ok [OF ok w hg] by simp
qed

lemma readHeaders_full_None:
  assumes "readHeaders (new_decoder a) False = (None, d)"
  shows "header_ok a \<and> 1 \<le> biWidth_of a \<and> biHeight_of a \<noteq> 0 \<and>
    biCompression_of a \<in> {bI_RGB, bI_RLE8, bI_RLE4, bI_BITFIELDS} \<and>
    \<not> 10000 < biClrUsed_of a \<and> d = full_header_state a"
proof -
  note ok = readHeaders_header_ok [OF assms]
  have w: "1 \<le> biWidth_of a"
    using assms readHeaders_bad_width [OF ok, of False] by (cases "biWidth_of a < 1") auto
  have hg: "biHeight_of a \<noteq> 0"
    using assms readHeaders_bad_height [OF ok w, of False] by (cases "biHeight_of a = 0") auto
  have cmp: "biCompression_of a \<in> {bI_RGB, bI_RLE8, bI_RLE4, bI_BITFIELDS}"
  proof (rule ccontr)
    assume "biCompression_of a \<notin> {bI_RGB, bI_RLE8, bI_RLE4, bI_BITFIELDS}"
    from readHeaders_bad_compression [OF ok w hg this] assms show False by simp
  qed
  have n: "\<not> 10000 < biClrUsed_of a"
  proof
    assume "10000 < biClrUsed_of a"
    from readHeaders_bad_palette_size [OF ok w hg cmp this] assms show False by simp
  qed
  show ?thesis
    using assms ok w hg cmp n readHeaders_full_ok [OF ok w hg cmp n] by simp
qed

lemma srcPal_of_bounds:
  assumes "\<not> 10000 < biClrUsed_of a"
  shows "0 \<le> srcPal_of a" "srcPal_of a \<le> 10000"
    "1 \<le> biBitCount_of a \<and> biBitCount_of a \<le> 8 \<Longrightarrow> 0 < srcPal_of a"
proof -
  have le: "uint (biClrUsed_of a) \<le> 10000" using assms by (simp add: word_less_def)
  have nz: "biClrUsed_of a \<noteq> 0 \<Longrightarrow> 0 < uint (biClrUsed_of a)"
    by (simp add: word_neq_0_conv word_less_def)
  have p: "1 \<le> biBitCount_of a \<and> biBitCount_of a \<le> 8 \<Longrightarrow>
      (2::int) ^ nat (biBitCount_of a) \<le> 2 ^ 8"
    by (intro power_increasing) auto
  show "0 \<le> srcPal_of a" by (simp add: srcPal_of_def)
  show "srcPal_of a \<le> 10000" using le p by (auto simp: srcPal_of_def)
  show "0 < srcPal_of a" if "1 \<le> biBitCount_of a \<and> biBitCount_of a \<le> 8"
    using that nz by (auto simp: srcPal_of_def)
qed

subsection \<open>Bytes the header reader does not look at\<close>

lemma slice_append_left: "j \<le> length p \<Longrightarrow> slice (p @ s) i j = slice p i j"
  by (simp add: slice_def)

lemma slice_drop_cong:
  "drop k a = drop k b \<Longrightarrow> k \<le> i \<Longrightarrow> slice a i j = slice b i j"
proof -
  assume d: "drop k a = drop k b" and k: "k \<le> i"
  have "drop i a = drop (i - k) (drop k a)" "drop i b = drop (i - k) (drop k b)"
    using k by simp_all
  with d show ?thesis by (simp add: slice_def)
qed

lemma drop_drop_cong: "drop k a = drop k b \<Longrightarrow> k \<le> i \<Longrightarrow> drop i a = drop i b"
proof -
  assume d: "drop k a = drop k b" and k: "k \<le> i"
  have "drop i a = drop (i - k) (drop k a)" "drop i b = drop (i - k) (drop k b)"
    using k by simp_all
  with d show ?thesis by simp
qed

lemma take2_nth:
  "take 2 a = take 2 b \<Longrightarrow> 2 \<le> length a \<Longrightarrow> a ! 0 = b ! 0 \<and> a ! 1 = b ! 1"
proof -
  assume t: "take 2 a = take 2 b" and l: "2 \<le> length a"
  have "take 2 a ! 0 = a ! 0" "take 2 a ! 1 = a ! 1" "take 2 b ! 0 = b ! 0" "take 2 b ! 1 = b ! 1"
    by simp_all
  with t show ?thesis by metis
qed

lemma readHeaders_cong_file_header:
  assumes len: "length a = length b" and t: "take 2 a = take 2 b" and d: "drop 10 a = drop 10 b"
  shows "readHeaders (new_decoder a) c = readHeaders (new_decoder b) c"
proof (cases "length a < 18")
  case True
  have "a = [] \<longleftrightarrow> b = []" using len by auto
  with True len show ?thesis
    using readHeaders_short [of "new_decoder a" c] readHeaders_short [of "new_decoder b" c]
    by (simp add: new_decoder_def)
next
  case False
  then have la: "18 \<le> length a" and lb: "18 \<le> length b" using len by simp_all
  have n: "a ! 0 = b ! 0" "a ! 1 = b ! 1" using take2_nth [OF t] la by simp_all
  have s: "slice a 10 14 = slice b 10 14" "slice a 14 18 = slice b 14 18"
    using slice_drop_cong [OF d] by simp_all
  have r: "drop 18 a = drop 18 b" using drop_drop_cong [OF d] by simp
  show ?thesis
    using la lb n
    by (simp add: readHeaders_def ReadFull_enough decodeFileHeader_def nth_slice slice_take
        slice_slice0 new_decoder_def s r)
qed

subsection \<open>What \<open>DecodeConfig\<close> returns\<close>

lemma fst_DecodeConfig:
  "fst (DecodeConfig a) =
    (if length a < 18 then Inl (if a = [] then EOF else ErrUnexpectedEOF)
     else if a ! 0 \<noteq> 0x42 \<or> a ! 1 \<noteq> 0x4d then Inl (FormatError ''not a BMP file'')
     else if biSize_of a \<noteq> 40
       then Inl (UnsupportedError
                  (''BMP version (header size '' @ sprint_d (uint (biSize_of a)) @ '')''))
     else if length a < 54 then Inl (if length a = 18 then EOF else ErrUnexpectedEOF)
     else if biWidth_of a < 1 then Inl (FormatError (''bad width '' @ sprint_d (biWidth_of a)))
     else if biHeight_of a = 0 then Inl (FormatError (''bad height '' @ sprint_d 0))
     else Inr \<lparr>ColorModel = (if 1 \<le> biBitCount_of a \<and> biBitCount_of a \<le> 8
                               then PaletteModel [] else NRGBAModel),
                Width = biWidth_of a, Height = \<bar>biHeight_of a\<bar>\<rparr>)"
proof -
  have a: "r (new_decoder a) = a" by (simp add: new_decoder_def)
  have split: "fst (DecodeConfig a) =
    (case readHeaders (new_decoder a) True of
       (Some err, d) \<Rightarrow> Inl err
     | (None, d) \<Rightarrow> Inr \<lparr>ColorModel = (if dstHasPalette d then PaletteModel [] else NRGBAModel),
                Width = width d, Height = height d\<rparr>)"
    by (simp add: DecodeConfig_def split: prod.splits option.splits)
  have err: "fst (DecodeConfig a) = Inl e" if "fst (readHeaders (new_decoder a) True) = Some e" for e
    using that by (cases "readHeaders (new_decoder a) True") (simp add: split)
  consider (short) "length a < 18"
    | (sig) "18 \<le> length a" "a ! 0 \<noteq> 0x42 \<or> a ! 1 \<noteq> 0x4d"
    | (size) "18 \<le> length a" "a ! 0 = 0x42" "a ! 1 = 0x4d" "biSize_of a \<noteq> 40"
    | (trunc) "18 \<le> length a" "length a < 54" "a ! 0 = 0x42" "a ! 1 = 0x4d" "biSize_of a = 40"
    | (width) "header_ok a" "biWidth_of a < 1"
    | (height) "header_ok a" "1 \<le> biWidth_of a" "biHeight_of a = 0"
    | (ok) "header_ok a" "1 \<le> biWidth_of a" "biHeight_of a \<noteq> 0"
    unfolding header_ok_def by linarith
  then show ?thesis
  proof cases
    case short
    then show ?thesis
      using readHeaders_short [of "new_decoder a" True] by (simp add: a err)
  next
    case sig
    then show ?thesis
      using readHeaders_bad_signature [of "new_decoder a" True] by (auto simp add: a err)
  next
    case size
    then show ?thesis
      using readHeaders_wrong_size [of "new_decoder a" True] by (simp add: a err biSize_of_def)
  next
    case trunc
    then show ?thesis
      using readHeaders_short_header [of "new_decoder a" True] by (simp add: a err biSize_of_def)
  next
    case width
    then show ?thesis
      using readHeaders_bad_width [of a True] by (simp add: err header_ok_def)
  next
    case height
    then show ?thesis
      using readHeaders_bad_height [of a True] by (simp add: err header_ok_def)
  next
    case ok
    then show ?thesis
      using readHeaders_config_ok [of a]
      by (simp add: split header_ok_def config_header_state_def)
  qed
qed

lemma fst_DecodeConfig_cong:
  assumes len: "length a = length b" and t: "take 30 a = take 30 b"
  shows "fst (DecodeConfig a) = fst (DecodeConfig b)"
proof -
  have s: "slice a i j = slice b i j" if "j \<le> 30" for i j
    using slice_take [OF that, of a i] slice_take [OF that, of b i] t by simp
  have n: "a ! 0 = b ! 0 \<and> a ! 1 = b ! 1" if "18 \<le> length a"
  proof -
    have "take 30 a ! 0 = a ! 0" "take 30 a ! 1 = a ! 1" "take 30 b ! 0 = b ! 0"
      "take 30 b ! 1 = b ! 1" by simp_all
    with t show ?thesis by metis
  qed
  have e: "a = [] \<longleftrightarrow> b = []" using len by auto
  have f: "biSize_of a = biSize_of b" "biWidth_of a = biWidth_of b"
    "biHeight_of a = biHeight_of b" "biBitCount_of a = biBitCount_of b"
    by (simp_all add: field_defs s)
  show ?thesis
  proof (cases "18 \<le> length a")
    case True
    then show ?thesis
      using n [OF True] len by (simp add: fst_DecodeConfig f)
  next
    case False
    then show ?thesis using len e by (simp add: fst_DecodeConfig)
  qed
qed

subsection \<open>\<open>Decode\<close> after the header\<close>

lemma sprint_d_small: "sprint_d 0 = ''0''" "sprint_d 2 = ''2''"
  by (simp_all add: sprint_d_def decimal.simps)

lemma Decode_header_error:
  "fst (readHeaders (new_decoder a) False) = Some e \<Longrightarrow> fst (Decode a) = Inl e"
  by (cases "readHeaders (new_decoder a) False") (simp add: Decode_def)

lemma Decode_Inr_header:
  assumes "fst (Decode a) = Inr img"
  shows "readHeaders (new_decoder a) False = (None, full_header_state a) \<and>
    biCompression_of a = bI_RGB \<and> biBitCount_of a \<in> {1, 4, 8, 24}"
proof -
  obtain e d1 where rh: "readHeaders (new_decoder a) False = (e, d1)"
    by (cases "readHeaders (new_decoder a) False")
  have e: "e = None"
    using assms rh by (cases e) (simp_all add: Decode_def)
  then have d1: "d1 = full_header_state a"
    using readHeaders_full_None [of a d1] rh by simp
  have "biCompression d1 = bI_RGB"
    using assms rh e by (cases "biCompression d1 = bI_RGB") (simp_all add: Decode_def)
  moreover have "bitCount d1 \<in> {1, 4, 8, 24}"
    using assms rh e calculation
    by (cases "bitCount d1 \<noteq> 1 \<and> bitCount d1 \<noteq> 4 \<and> bitCount d1 \<noteq> 8 \<and> bitCount d1 \<noteq> 24")
       (simp_all add: Decode_def)
  ultimately show ?thesis
    using rh e d1 by (simp add: full_header_state_def)
qed

lemma Decode_compressed:
  assumes "header_ok a" "1 \<le> biWidth_of a" "biHeight_of a \<noteq> 0"
    "biCompression_of a \<in> {bI_RLE8, bI_RLE4, bI_BITFIELDS}" "\<not> 10000 < biClrUsed_of a"
  shows "Decode a =
    (Inl (UnsupportedError
       (''compression or image type '' @ sprint_d (uint (biCompression_of a)))), drop 54 a)"
proof -
  have k: "biCompression_of a \<in> {bI_RGB, bI_RLE8, bI_RLE4, bI_BITFIELDS}"
    using assms(4) by auto
  have nz: "biCompression_of a \<noteq> bI_RGB"
    using assms(4) by (auto simp: bI_RGB_def bI_RLE8_def bI_RLE4_def bI_BITFIELDS_def)
  show ?thesis
    using readHeaders_full_ok [OF assms(1,2,3) k assms(5)] nz
    by (simp add: Decode_def full_header_state_def)
qed

subsection \<open>What the later steps leave alone\<close>

definition bits_frame :: "decoder \<Rightarrow> decoder \<Rightarrow> bool" where
  "bits_frame d d' \<longleftrightarrow>
     same_header d d' \<and>
     rel_option img_frame (img_Paletted d) (img_Paletted d') \<and>
     rel_option img_frame (img_NRGBA d) (img_NRGBA d')"

lemma bits_frame_refl: "bits_frame d d"
  by (simp add: bits_frame_def same_header_def option.rel_refl img_frame_refl)

lemma bits_frame_trans: "bits_frame d d' \<Longrightarrow> bits_frame d' d'' \<Longrightarrow> bits_frame d d''"
  unfolding bits_frame_def
  by (auto simp: same_header_def intro: rel_option_img_frame_trans)

lemma pix_frame_bits_frame: "pix_frame d d' \<Longrightarrow> bits_frame d d'"
  by (simp add: pix_frame_def bits_frame_def)

lemma bits_frame_r_update: "bits_frame d (d\<lparr>r := rd\<rparr>)"
  by (simp add: bits_frame_def same_header_def option.rel_refl img_frame_refl)

lemma bits_frame_readBits_loop: "readBits_loop f d s k = (e, d') \<Longrightarrow> bits_frame d d'"
proof (induction f d s k rule: readBits_loop.induct)
  case (1 f d s k)
  from "1.prems" show ?case
    apply (subst (asm) readBits_loop.simps)
    apply (simp add: Let_def bits_frame_refl split: if_splits sum.splits prod.splits option.splits)
    apply (auto simp: bits_frame_refl bits_frame_r_update
        intro: bits_frame_trans [OF bits_frame_r_update
                 bits_frame_trans [OF pix_frame_bits_frame [OF pix_frame_decodeRowFunc] "1.IH"]]
               bits_frame_trans [OF bits_frame_r_update
                 pix_frame_bits_frame [OF pix_frame_decodeRowFunc]])
    done
qed

lemma bits_frame_readBits: "readBits d = (e, d') \<Longrightarrow> bits_frame d d'"
  by (auto simp: readBits_def Let_def bits_frame_refl split: if_splits
      dest: bits_frame_readBits_loop)

lemma skipBytes_frame: "skipBytes d n = (e, d') \<Longrightarrow> \<exists>rd. d' = d\<lparr>r := rd\<rparr>"
proof (induction d n rule: skipBytes.induct)
  case (1 d n)
  show ?case
  proof (cases "0 < n")
    case False
    with "1.prems" have "d' = d" by (subst (asm) skipBytes.simps) simp
    then show ?thesis by (auto intro: exI [of _ "r d"])
  next
    case True
    define b where "b = (if 1024 > n then n else 1024)"
    obtain x rd where rf: "ReadFull (r d) (nat b) = (x, rd)"
      by (cases "ReadFull (r d) (nat b)")
    show ?thesis
    proof (cases x)
      case (Inl err)
      with "1.prems" True rf have "d' = d\<lparr>r := rd\<rparr>"
        by (subst (asm) skipBytes.simps) (simp add: Let_def b_def)
      then show ?thesis by blast
    next
      case (Inr buf)
      with "1.prems" True rf have "skipBytes (d\<lparr>r := rd\<rparr>) (n - b) = (e, d')"
        by (subst (asm) skipBytes.simps) (simp add: Let_def b_def)
      with "1.IH" [OF True b_def rf [symmetric] Inr] obtain rd' where "d' = d\<lparr>r := rd\<rparr>\<lparr>r := rd'\<rparr>"
        by blast
      then have "d' = d\<lparr>r := rd'\<rparr>" by simp
      then show ?thesis by blast
    qed
  qed
qed

lemma readGap_frame: "readGap d = (e, d') \<Longrightarrow> \<exists>rd. d' = d\<lparr>r := rd\<rparr>"
  by (auto simp: readGap_def Let_def split: if_splits dest: skipBytes_frame intro: exI [of _ "r d"])

subsection \<open>Skipping the gap\<close>

lemma skipBytes_enough:
  "nat n \<le> length (r d) \<Longrightarrow> skipBytes d n = (None, d\<lparr>r := drop (nat n) (r d)\<rparr>)"
proof (induction d n rule: skipBytes.induct)
  case (1 d n)
  show ?case
  proof (cases "0 < n")
    case False
    then show ?thesis by (subst skipBytes.simps) simp
  next
    case True
    define b where "b = (if 1024 > n then n else 1024)"
    have b: "0 < b" "b \<le> n" "nat b \<le> length (r d)"
      using True "1.prems" by (auto simp: b_def)
    have rf: "(Inr (take (nat b) (r d)), drop (nat b) (r d)) = ReadFull (r d) (nat b)"
      using b by (simp add: ReadFull_enough)
    have "skipBytes d n = skipBytes (d\<lparr>r := drop (nat b) (r d)\<rparr>) (n - b)"
      using True rf [symmetric] by (subst skipBytes.simps) (simp add: Let_def b_def)
    also have "\<dots> = (None, d\<lparr>r := drop (nat b) (r d)\<rparr>
        \<lparr>r := drop (nat (n - b)) (r (d\<lparr>r := drop (nat b) (r d)\<rparr>))\<rparr>)"
      using "1.prems" b by (intro "1.IH" [OF True b_def rf refl]) simp
    also have "\<dots> = (None, d\<lparr>r := drop (nat n) (r d)\<rparr>)"
    proof -
      have "nat (n - b) + nat b = nat n" using b by simp
      then show ?thesis by simp
    qed
    finally show ?thesis .
  qed
qed

lemma skipBytes_short:
  "length (r d) < nat n \<Longrightarrow>
   fst (skipBytes d n) = Some (if length (r d) mod 1024 = 0 then EOF else ErrUnexpectedEOF) \<and>
   r (snd (skipBytes d n)) = []"
proof (induction d n rule: skipBytes.induct)
  case (1 d n)
  then have pos: "0 < n" by simp
  define b where "b = (if 1024 > n then n else 1024)"
  show ?case
  proof (cases "nat b \<le> length (r d)")
    case True
    then have b: "b = 1024" "1024 \<le> length (r d)"
      using "1.prems" by (auto simp: b_def split: if_splits)
    have rf: "(Inr (take (nat b) (r d)), drop (nat b) (r d)) = ReadFull (r d) (nat b)"
      using True by (simp add: ReadFull_enough)
    have step: "skipBytes d n = skipBytes (d\<lparr>r := drop (nat b) (r d)\<rparr>) (n - b)"
      using pos rf [symmetric] by (subst skipBytes.simps) (simp add: Let_def b_def)
    have m: "(length (r d) - 1024) mod 1024 = length (r d) mod 1024"
      using le_mod_geq [of 1024 "length (r d)"] b(2) by simp
    have "length (r (d\<lparr>r := drop (nat b) (r d)\<rparr>)) < nat (n - b)"
      using "1.prems" b by simp
    from "1.IH" [OF pos b_def rf refl this] show ?thesis
      using b by (simp add: step m)
  next
    case False
    then have short: "length (r d) < nat b" by simp
    then have lt: "length (r d) < 1024" by (auto simp: b_def split: if_splits)
    have "skipBytes d n =
        (Some (if r d = [] then EOF else ErrUnexpectedEOF), d\<lparr>r := []\<rparr>)"
      using pos ReadFull_short [OF short]
      by (subst skipBytes.simps) (simp add: Let_def b_def)
    then show ?thesis using lt by simp
  qed
qed

lemma readGap_cases:
  fixes d :: decoder
  defines "off \<equiv> 14 + uint (headerSize d) + bitFieldsSize d + srcPalSizeInBytes d"
  shows "off = uint (bfOffBits d) \<Longrightarrow> readGap d = (None, d)"
    and "uint (bfOffBits d) < off \<Longrightarrow>
      readGap d = (Some (FormatError ''bad bfOffBits field''), d)"
    and "off < uint (bfOffBits d) \<Longrightarrow> nat (uint (bfOffBits d) - off) \<le> length (r d) \<Longrightarrow>
      readGap d = (None, d\<lparr>r := drop (nat (uint (bfOffBits d) - off)) (r d)\<rparr>)"
    and "off < uint (bfOffBits d) \<Longrightarrow> length (r d) < nat (uint (bfOffBits d) - off) \<Longrightarrow>
      fst (readGap d) = Some (if length (r d) mod 1024 = 0 then EOF else ErrUnexpectedEOF) \<and>
      r (snd (readGap d)) = []"
  using skipBytes_enough [of "uint (bfOffBits d) - off" d]
    skipBytes_short [of d "uint (bfOffBits d) - off"]
  by (simp_all add: readGap_def Let_def off_def)

subsection \<open>Reading the palette\<close>

text \<open>Entry \<open>k\<close> of the palette made of the raw bytes \<open>buf\<close>.\<close>

definition palette_entry :: "byte list \<Rightarrow> nat \<Rightarrow> color option" where
  "palette_entry buf k = Some (RGBA (buf ! (4 * k + 2)) (buf ! (4 * k + 1)) (buf ! (4 * k)) 255)"

lemma readPalette_loop_spec:
  assumes "srcPalBytesPerEntry d = 4" "length (dstPalette d) = nat (dstPalNumEntries d)"
    "4 * dstPalNumEntries d \<le> int (length buf)" "int i \<le> dstPalNumEntries d"
  shows "readPalette_loop d buf i =
    (None, d\<lparr>dstPalette := take i (dstPalette d) @
                map (palette_entry buf) [i..<nat (dstPalNumEntries d)]\<rparr>)"
  using assms
proof (induction d buf i rule: readPalette_loop.induct)
  case (1 d buf i)
  show ?case
  proof (cases "int i < dstPalNumEntries d")
    case False
    with "1.prems" have "i = nat (dstPalNumEntries d)" by simp
    with "1.prems" False show ?thesis
      by (subst readPalette_loop.simps) simp
  next
    case True
    let ?e = "Some (RGBA (buf ! (4 * i + 2)) (buf ! (4 * i + 1)) (buf ! (4 * i)) 255)"
    let ?d = "d\<lparr>dstPalette := (dstPalette d)[i := ?e]\<rparr>"
    have l0: "load buf (int i * srcPalBytesPerEntry d + 0) = Inr (buf ! (4 * i))"
      and l1: "load buf (int i * srcPalBytesPerEntry d + 1) = Inr (buf ! (4 * i + 1))"
      and l2: "load buf (int i * srcPalBytesPerEntry d + 2) = Inr (buf ! (4 * i + 2))"
      using "1.prems" True
      by (auto simp: load_def nat_add_distrib nat_mult_distrib mult.commute)
    have st: "store (dstPalette d) (int i) ?e = Inr ((dstPalette d)[i := ?e])"
      using "1.prems" True by (simp add: store_def)
    have "readPalette_loop d buf i = readPalette_loop ?d buf (i + 1)"
      using True l0 l1 l2 st by (subst readPalette_loop.simps) simp
    also have "\<dots> = (None, ?d\<lparr>dstPalette := take (i + 1) (dstPalette ?d) @
                map (palette_entry buf) [i + 1..<nat (dstPalNumEntries ?d)]\<rparr>)"
      using "1.prems" True
      by (intro "1.IH" [OF True l0 l1 l2 st]) auto
    also have "\<dots> = (None, d\<lparr>dstPalette := take i (dstPalette d) @
                map (palette_entry buf) [i..<nat (dstPalNumEntries d)]\<rparr>)"
      using "1.prems" True
      by (simp add: take_Suc_conv_app_nth upt_conv_Cons palette_entry_def)
    finally show ?thesis .
  qed
qed



lemma readPalette_short:
  "length (r d) < nat (srcPalSizeInBytes d) \<Longrightarrow>
   readPalette d = (Some (if r d = [] then EOF else ErrUnexpectedEOF), d\<lparr>r := []\<rparr>)"
  by (simp add: readPalette_def ReadFull_short)

lemma readPalette_direct:
  "nat (srcPalSizeInBytes d) \<le> length (r d) \<Longrightarrow> \<not> dstHasPalette d \<Longrightarrow>
   readPalette d =
     (None, d\<lparr>r := drop (nat (srcPalSizeInBytes d)) (r d), dstPalNumEntries := 0\<rparr>)"
  by (simp add: readPalette_def ReadFull_enough)

lemma readPalette_paletted:
  assumes "nat (srcPalSizeInBytes d) \<le> length (r d)" "dstHasPalette d"
    "srcPalBytesPerEntry d = 4" "srcPalSizeInBytes d = srcPalNumEntries d * 4"
    "0 \<le> srcPalNumEntries d"
  shows "readPalette d =
     (None, d\<lparr>r := drop (nat (srcPalSizeInBytes d)) (r d),
              dstPalNumEntries := min (srcPalNumEntries d) 256,
              dstPalette := map (palette_entry (take (nat (srcPalSizeInBytes d)) (r d)))
                              [0..<nat (min (srcPalNumEntries d) 256)]\<rparr>)"
proof -
  let ?n = "min (srcPalNumEntries d) 256"
  let ?buf = "take (nat (srcPalSizeInBytes d)) (r d)"
  let ?d = "d\<lparr>r := drop (nat (srcPalSizeInBytes d)) (r d), dstPalNumEntries := ?n,
             dstPalette := replicate (nat ?n) None\<rparr>"
  have 1: "readPalette d = readPalette_loop ?d ?buf 0"
    using assms(1,2)
    by (cases "256 < srcPalNumEntries d")
       (simp_all add: readPalette_def ReadFull_enough Let_def min_def)
  have lb: "int (length ?buf) = srcPalNumEntries d * 4"
    using assms(1,4,5) by simp
  have 2: "readPalette_loop ?d ?buf 0 =
      (None, ?d\<lparr>dstPalette := take 0 (dstPalette ?d) @
                map (palette_entry ?buf) [0..<nat (dstPalNumEntries ?d)]\<rparr>)"
    using assms(3,5) lb by (intro readPalette_loop_spec) (simp_all add: min_def)
  show ?thesis unfolding 1 2 by simp
qed

subsection \<open>The steps of \<open>Decode\<close> after the header\<close>

lemma Decode_Inr_steps:
  assumes "fst (Decode a) = Inr img"
  obtains d2 d3 d4 d5 where
    "(if 0 < srcPal_of a then readPalette (full_header_state a)
      else (None, full_header_state a)) = (None, d2)"
    "createTargetImage d2 = Inr d3" "readGap d3 = (None, d4)" "readBits d4 = (None, d5)"
    "img = (if dstHasPalette d5 then Image_Paletted (img_Paletted d5)
            else Image_NRGBA (img_NRGBA d5))"
proof -
  note h = Decode_Inr_header [OF assms]
  let ?d1 = "full_header_state a"
  have f: "biCompression ?d1 = bI_RGB" "bitCount ?d1 \<in> {1, 4, 8, 24}"
    "srcPalNumEntries ?d1 = srcPal_of a"
    using h by (simp_all add: full_header_state_def)
  obtain e2 d2 where s2: "(if 0 < srcPal_of a then readPalette ?d1 else (None, ?d1)) = (e2, d2)"
    by (cases "if 0 < srcPal_of a then readPalette ?d1 else (None, ?d1)")
  have u2: "fst (Decode a) =
      (case e2 of Some err \<Rightarrow> Inl err
       | None \<Rightarrow>
           (case createTargetImage d2 of
              Inl e \<Rightarrow> Inl e
            | Inr d \<Rightarrow>
                (case readGap d of
                   (Some err, d) \<Rightarrow> Inl err
                 | (None, d) \<Rightarrow>
                     (case readBits d of
                        (Some err, d) \<Rightarrow> Inl err
                      | (None, d) \<Rightarrow>
                          if dstHasPalette d then Inr (Image_Paletted (img_Paletted d))
                          else Inr (Image_NRGBA (img_NRGBA d))))))"
    using h f s2
    by (auto simp add: Decode_def split: option.splits sum.splits prod.splits)
  have e2: "e2 = None" using assms u2 by (cases e2) simp_all
  obtain d3 where s3: "createTargetImage d2 = Inr d3"
    using assms u2 e2 by (cases "createTargetImage d2") simp_all
  obtain e4 d4 where s4: "readGap d3 = (e4, d4)" by (cases "readGap d3")
  have e4: "e4 = None" using assms u2 e2 s3 s4 by (cases e4) simp_all
  obtain e5 d5 where s5: "readBits d4 = (e5, d5)" by (cases "readBits d4")
  have e5: "e5 = None" using assms u2 e2 s3 s4 e4 s5 by (cases e5) simp_all
  have "img = (if dstHasPalette d5 then Image_Paletted (img_Paletted d5)
            else Image_NRGBA (img_NRGBA d5))"
    using assms u2 e2 s3 s4 e4 s5 e5 by (simp split: if_splits)
  with that s2 e2 s3 s4 e4 s5 e5 show thesis by simp
qed

lemma Dx_image_Rect: "0 \<le> w \<Longrightarrow> Dx (image_Rect 0 0 w h) = w"
  and Dy_image_Rect: "0 \<le> h \<Longrightarrow> Dy (image_Rect 0 0 w h) = h"
  by (simp_all add: Dx_def Dy_def image_Rect_def)

lemma createTargetImage_paletted:
  assumes "createTargetImage d = Inr d'" "1 \<le> width d" "1 \<le> height d" "dstHasPalette d"
  shows "d' = d\<lparr>img_Paletted :=
      Some \<lparr>Pix = replicate (nat (width d * height d)) 0, Stride = width d,
            Rect = image_Rect 0 0 (width d) (height d), Palette = dstPalette d\<rparr>\<rparr>"
  using assms
  by (auto simp add: createTargetImage_def NewPaletted_def pixelBufferLength_def Dx_image_Rect
      Dy_image_Rect split: sum.splits if_splits)

lemma createTargetImage_direct:
  assumes "createTargetImage d = Inr d'" "1 \<le> width d" "1 \<le> height d" "\<not> dstHasPalette d"
  shows "d' = d\<lparr>img_NRGBA :=
      Some \<lparr>Pix = replicate (nat (4 * width d * height d)) 0, Stride = 4 * width d,
            Rect = image_Rect 0 0 (width d) (height d)\<rparr>\<rparr>"
  using assms
  by (auto simp add: createTargetImage_def NewNRGBA_def pixelBufferLength_def Dx_image_Rect
      Dy_image_Rect split: sum.splits if_splits)

subsection \<open>Example files\<close>

text \<open>A header alone: 2 by 2 pixels, 8 bits, compression 2, no colour count.\<close>

definition bmp_rle_8bit :: "byte list" where
  "bmp_rle_8bit =
     [66, 77, 0, 0, 0, 0, 0, 0, 0, 0, 54, 4, 0, 0, 40, 0, 0, 0, 2, 0, 0, 0, 2, 0, 0, 0,
      1, 0, 8, 0, 2, 0, 0, 0, 0, 0, 0, 0, 0, 0, 0, 0, 0, 0, 0, 0, 0, 0, 0, 0, 0, 0, 0,
      0]"

text \<open>The same header with compression 0 and a colour count of 7.\<close>

definition bmp_rle_8bit_other :: "byte list" where
  "bmp_rle_8bit_other =
     [66, 77, 0, 0, 0, 0, 0, 0, 0, 0, 54, 4, 0, 0, 40, 0, 0, 0, 2, 0, 0, 0, 2, 0, 0, 0,
      1, 0, 8, 0, 0, 0, 0, 0, 0, 0, 0, 0, 0, 0, 0, 0, 0, 0, 0, 0, 7, 0, 0, 0, 0, 0, 0,
      0]"

text \<open>A header alone: 5 by 3 pixels, 1 bit, uncompressed, no colour count.\<close>

definition bmp_1bit_header :: "byte list" where
  "bmp_1bit_header =
     [66, 77, 0, 0, 0, 0, 0, 0, 0, 0, 62, 0, 0, 0, 40, 0, 0, 0, 5, 0, 0, 0, 3, 0, 0, 0,
      1, 0, 1, 0, 0, 0, 0, 0, 0, 0, 0, 0, 0, 0, 0, 0, 0, 0, 0, 0, 0, 0, 0, 0, 0, 0, 0,
      0]"

text \<open>A header alone: 8 bits and a colour count of 10001.\<close>

definition bmp_big_palette_header :: "byte list" where
  "bmp_big_palette_header =
     [66, 77, 0, 0, 0, 0, 0, 0, 0, 0, 122, 156, 0, 0, 40, 0, 0, 0, 5, 0, 0, 0, 3, 0, 0,
      0, 1, 0, 8, 0, 0, 0, 0, 0, 0, 0, 0, 0, 0, 0, 0, 0, 0, 0, 0, 0, 17, 39, 0, 0, 0, 0,
      0, 0]"

text \<open>A whole file: 2 by 2 pixels, 24 bits, bottom-up, the rows padded to 8 bytes.\<close>

definition bmp_24bit :: "byte list" where
  "bmp_24bit =
     [66, 77, 0, 0, 0, 0, 0, 0, 0, 0, 54, 0, 0, 0, 40, 0, 0, 0, 2, 0, 0, 0, 2, 0, 0, 0,
      1, 0, 24, 0, 0, 0, 0, 0, 0, 0, 0, 0, 0, 0, 0, 0, 0, 0, 0, 0, 0, 0, 0, 0, 0, 0, 0,
      0, 1, 2, 3, 4, 5, 6, 0, 0, 7, 8, 9, 10, 11, 12, 0, 0]"

text \<open>The same file with other bytes in the size and reserved fields.\<close>

definition bmp_24bit_other :: "byte list" where
  "bmp_24bit_other =
     [66, 77, 70, 0, 0, 0, 4, 3, 2, 1, 54, 0, 0, 0, 40, 0, 0, 0, 2, 0, 0, 0, 2, 0, 0, 0,
      1, 0, 24, 0, 0, 0, 0, 0, 0, 0, 0, 0, 0, 0, 0, 0, 0, 0, 0, 0, 0, 0, 0, 0, 0, 0, 0,
      0, 1, 2, 3, 4, 5, 6, 0, 0, 7, 8, 9, 10, 11, 12, 0, 0]"

section \<open>The claims\<close>

subsection \<open>C1: a wrong signature\<close>

text \<open>
  C1, as the code has it: \<open>readHeaders\<close> reads the 14 bytes of the file header and the
  4 bytes of the header size in one call before it looks at the signature. So an input of
  at least 18 bytes whose first two bytes are not \<open>BM\<close> makes \<open>Decode\<close> and
  \<open>DecodeConfig\<close> fail with the format error \<open>not a BMP file\<close> once exactly these 18
  bytes are consumed, and an input of fewer than 18 bytes fails with the error of the short
  read (\<open>EOF\<close> on no byte at all, \<open>ErrUnexpectedEOF\<close> otherwise) with every byte
  consumed, whatever its signature.
\<close>

theorem C1_bad_signature:
  "(18 \<le> length a \<and> (a ! 0 \<noteq> 0x42 \<or> a ! 1 \<noteq> 0x4d) \<longrightarrow>
      Decode a = (Inl (FormatError ''not a BMP file''), drop 18 a) \<and>
      DecodeConfig a = (Inl (FormatError ''not a BMP file''), drop 18 a)) \<and>
   (length a < 18 \<longrightarrow>
      Decode a = (Inl (if a = [] then EOF else ErrUnexpectedEOF), []) \<and>
      DecodeConfig a = (Inl (if a = [] then EOF else ErrUnexpectedEOF), []))"
proof (intro conjI impI)
  assume h: "18 \<le> length a \<and> (a ! 0 \<noteq> 0x42 \<or> a ! 1 \<noteq> 0x4d)"
  then have "\<And>c. readHeaders (new_decoder a) c =
      (Some (FormatError ''not a BMP file''), (new_decoder a)\<lparr>r := drop 18 a\<rparr>)"
    using readHeaders_bad_signature [of "new_decoder a"] by (simp add: new_decoder_def)
  then show "Decode a = (Inl (FormatError ''not a BMP file''), drop 18 a)"
    and "DecodeConfig a = (Inl (FormatError ''not a BMP file''), drop 18 a)"
    by (simp_all add: Decode_def DecodeConfig_def)
next
  assume h: "length a < 18"
  then have "\<And>c. readHeaders (new_decoder a) c =
      (Some (if a = [] then EOF else ErrUnexpectedEOF), (new_decoder a)\<lparr>r := []\<rparr>)"
    using readHeaders_short [of "new_decoder a"] by (simp add: new_decoder_def)
  then show "Decode a = (Inl (if a = [] then EOF else ErrUnexpectedEOF), [])"
    and "DecodeConfig a = (Inl (if a = [] then EOF else ErrUnexpectedEOF), [])"
    by (simp_all add: Decode_def DecodeConfig_def)
qed

theorem C1_bad_signature_witness:
  "Decode [0x58, 0x58, 0, 0, 0, 0, 0, 0, 0, 0, 54, 0, 0, 0, 40, 0, 0, 0, 2, 0] =
     (Inl (FormatError ''not a BMP file''), [2, 0]) \<and>
   DecodeConfig [0x58, 0x58, 0, 0, 0, 0, 0, 0, 0, 0, 54, 0, 0, 0, 40, 0, 0, 0, 2, 0] =
     (Inl (FormatError ''not a BMP file''), [2, 0]) \<and>
   Decode [0x42, 0x4d, 0] = (Inl ErrUnexpectedEOF, []) \<and>
   DecodeConfig [] = (Inl EOF, [])"
  using C1_bad_signature [of "[0x58, 0x58, 0, 0, 0, 0, 0, 0, 0, 0, 54, 0, 0, 0, 40, 0, 0, 0, 2, 0]"]
    C1_bad_signature [of "[0x42, 0x4d, 0]"] C1_bad_signature [of "[]"]
  by simp

text \<open>
  The claim as the specification states it fails twice: the two bytes \<open>XX\<close> alone give
  the error of a short read and not a format error, and on a longer input the 16 bytes
  after the signature are consumed before the failure.
\<close>

theorem C1_counterexample:
  "Decode [0x58, 0x58] = (Inl ErrUnexpectedEOF, []) \<and>
   DecodeConfig [0x58, 0x58] = (Inl ErrUnexpectedEOF, []) \<and>
   snd (Decode [0x58, 0x58, 0, 0, 0, 0, 0, 0, 0, 0, 54, 0, 0, 0, 40, 0, 0, 0, 2, 0]) = [2, 0] \<and>
   snd (DecodeConfig [0x58, 0x58, 0, 0, 0, 0, 0, 0, 0, 0, 54, 0, 0, 0, 40, 0, 0, 0, 2, 0]) = [2, 0]"
  by code_simp

subsection \<open>C5: the gap before the pixel data\<close>

text \<open>
  C5, as the code has it. \<open>readGap\<close> computes the offset
  \<open>14 + headerSize + bitFieldsSize + srcPalSizeInBytes\<close>, where after the header of a
  full decode the header size is 40, the size of the bitfields segment is 0 or 12 and the
  palette takes 4 bytes for each source entry. When the computed offset equals
  \<open>bfOffBits\<close> nothing is consumed; when it exceeds \<open>bfOffBits\<close> the result is the
  format error \<open>bad bfOffBits field\<close> and nothing is consumed; otherwise, when the
  reader still holds the \<open>bfOffBits\<close> minus offset bytes of the gap, exactly these are
  discarded, and when it holds fewer the result is the error of the short read, every
  byte of the reader consumed.
\<close>

theorem C5_gap:
  "(14 + uint (headerSize d) + bitFieldsSize d + srcPalSizeInBytes d = uint (bfOffBits d) \<longrightarrow>
      readGap d = (None, d)) \<and>
   (uint (bfOffBits d) < 14 + uint (headerSize d) + bitFieldsSize d + srcPalSizeInBytes d \<longrightarrow>
      readGap d = (Some (FormatError ''bad bfOffBits field''), d)) \<and>
   (14 + uint (headerSize d) + bitFieldsSize d + srcPalSizeInBytes d < uint (bfOffBits d) \<and>
    nat (uint (bfOffBits d) -
      (14 + uint (headerSize d) + bitFieldsSize d + srcPalSizeInBytes d)) \<le> length (r d) \<longrightarrow>
      readGap d =
        (None, d\<lparr>r := drop (nat (uint (bfOffBits d) -
           (14 + uint (headerSize d) + bitFieldsSize d + srcPalSizeInBytes d))) (r d)\<rparr>)) \<and>
   (14 + uint (headerSize d) + bitFieldsSize d + srcPalSizeInBytes d < uint (bfOffBits d) \<and>
    length (r d) < nat (uint (bfOffBits d) -
      (14 + uint (headerSize d) + bitFieldsSize d + srcPalSizeInBytes d)) \<longrightarrow>
      fst (readGap d) = Some (if length (r d) mod 1024 = 0 then EOF else ErrUnexpectedEOF) \<and>
      r (snd (readGap d)) = []) \<and>
   (readHeaders (new_decoder a) False = (None, d) \<longrightarrow>
      headerSize d = 40 \<and> bitFieldsSize d \<in> {0, 12} \<and>
      srcPalSizeInBytes d = srcPalNumEntries d * 4)"
proof (intro conjI impI)
  assume "readHeaders (new_decoder a) False = (None, d)"
  then have d: "d = full_header_state a" using readHeaders_full_None [of a d] by simp
  show "headerSize d = 40" "bitFieldsSize d \<in> {0, 12}"
    "srcPalSizeInBytes d = srcPalNumEntries d * 4"
    by (simp_all add: d full_header_state_def)
qed (use readGap_cases [of d] in \<open>blast+\<close>)

text \<open>Four decoders in front of gaps of 0, -44, 4 and 4 bytes, and a header.\<close>

theorem C5_gap_witness:
  "readGap ((new_decoder [1, 2, 3, 4, 5])\<lparr>headerSize := 40, bfOffBits := 54\<rparr>) =
     (None, (new_decoder [1, 2, 3, 4, 5])\<lparr>headerSize := 40, bfOffBits := 54\<rparr>) \<and>
   readGap ((new_decoder [1, 2, 3, 4, 5])\<lparr>headerSize := 40, bfOffBits := 10\<rparr>) =
     (Some (FormatError ''bad bfOffBits field''),
      (new_decoder [1, 2, 3, 4, 5])\<lparr>headerSize := 40, bfOffBits := 10\<rparr>) \<and>
   readGap ((new_decoder [1, 2, 3, 4, 5])\<lparr>headerSize := 40, bfOffBits := 58\<rparr>) =
     (None, (new_decoder [5])\<lparr>headerSize := 40, bfOffBits := 58\<rparr>) \<and>
   fst (readGap ((new_decoder [1, 2])\<lparr>headerSize := 40, bfOffBits := 58\<rparr>)) =
     Some ErrUnexpectedEOF \<and>
   r (snd (readGap ((new_decoder [1, 2])\<lparr>headerSize := 40, bfOffBits := 58\<rparr>))) = [] \<and>
   headerSize (full_header_state bmp_24bit) = 40 \<and>
   srcPalSizeInBytes (full_header_state bmp_24bit) =
     srcPalNumEntries (full_header_state bmp_24bit) * 4"
proof -
  let ?d1 = "(new_decoder [1, 2, 3, 4, 5])\<lparr>headerSize := 40, bfOffBits := 54\<rparr>"
  let ?d2 = "(new_decoder [1, 2, 3, 4, 5])\<lparr>headerSize := 40, bfOffBits := 10\<rparr>"
  let ?d3 = "(new_decoder [1, 2, 3, 4, 5])\<lparr>headerSize := 40, bfOffBits := 58\<rparr>"
  let ?d4 = "(new_decoder [1, 2])\<lparr>headerSize := 40, bfOffBits := 58\<rparr>"
  have h: "header_ok bmp_24bit" "1 \<le> biWidth_of bmp_24bit" "biHeight_of bmp_24bit \<noteq> 0"
    "\<not> 10000 < biClrUsed_of bmp_24bit"
    by code_simp+
  have c: "biCompression_of bmp_24bit = 0" by code_simp
  have k: "biCompression_of bmp_24bit \<in> {bI_RGB, bI_RLE8, bI_RLE4, bI_BITFIELDS}"
    by (simp add: c bI_RGB_def)
  note rh = readHeaders_full_ok [OF h(1,2,3) k h(4)]
  have 1: "readGap ?d1 = (None, ?d1)"
    using C5_gap [of ?d1] by (simp add: new_decoder_def)
  have 2: "readGap ?d2 = (Some (FormatError ''bad bfOffBits field''), ?d2)"
    using C5_gap [of ?d2] by (simp add: new_decoder_def)
  have 3: "readGap ?d3 = (None, (new_decoder [5])\<lparr>headerSize := 40, bfOffBits := 58\<rparr>)"
    using C5_gap [of ?d3] by (simp add: new_decoder_def)
  have 4: "fst (readGap ?d4) = Some ErrUnexpectedEOF \<and> r (snd (readGap ?d4)) = []"
    using C5_gap [of ?d4] by (simp add: new_decoder_def)
  have 5: "headerSize (full_header_state bmp_24bit) = 40 \<and>
      srcPalSizeInBytes (full_header_state bmp_24bit) =
        srcPalNumEntries (full_header_state bmp_24bit) * 4"
    using C5_gap [of "full_header_state bmp_24bit" bmp_24bit] rh by blast
  from 1 2 3 4 5 show ?thesis by blast
qed

text \<open>
  The claim as the specification states it fails twice: the message of the format error
  is not \<open>bad pixel-data-offset field\<close>, and a gap of 4 bytes in front of a reader that
  holds 2 bytes is not skipped but ends in the error of the short read.
\<close>

theorem C5_counterexample:
  "fst (readGap ((new_decoder [1, 2, 3, 4, 5])\<lparr>headerSize := 40, bfOffBits := 10\<rparr>)) \<noteq>
     Some (FormatError ''bad pixel-data-offset field'') \<and>
   fst (readGap ((new_decoder [1, 2])\<lparr>headerSize := 40, bfOffBits := 58\<rparr>)) =
     Some ErrUnexpectedEOF"
  by (simp add: readGap_def Let_def new_decoder_def skipBytes.simps ReadFull_def)

subsection \<open>C6: compression is checked by \<open>Decode\<close> only\<close>

text \<open>
  C6. A file with a well-formed 40-byte header (signature, header size 40, width at least
  1, height not 0, at most 10000 colours) that declares 8 bits and compression 2 makes
  \<open>DecodeConfig\<close> succeed with the dimensions and the palette colour model, and
  \<open>Decode\<close> fail with the unsupported-feature error for compression 2. More generally
  the outcome of \<open>DecodeConfig\<close> is the same for two files of one length that agree on
  their first 30 bytes, so it depends neither on the compression field (bytes 30 to 33)
  nor on anything behind it; \<open>Decode\<close> never succeeds on a file whose compression field
  is not 0, and on a well-formed header it fails with the unsupported-feature error that
  names the value (for one of the three other recognised codes, provided the colour count
  passes its own check, which comes first).
\<close>

theorem C6_compression:
  "(header_ok a \<and> 1 \<le> biWidth_of a \<and> biHeight_of a \<noteq> 0 \<and> biBitCount_of a = 8 \<and>
    biCompression_of a = 2 \<and> \<not> 10000 < biClrUsed_of a \<longrightarrow>
      DecodeConfig a =
        (Inr \<lparr>ColorModel = PaletteModel [], Width = biWidth_of a,
               Height = \<bar>biHeight_of a\<bar>\<rparr>, drop 54 a) \<and>
      Decode a = (Inl (UnsupportedError ''compression or image type 2''), drop 54 a)) \<and>
   (length a = length b \<and> take 30 a = take 30 b \<longrightarrow>
      fst (DecodeConfig a) = fst (DecodeConfig b)) \<and>
   (biCompression_of a \<noteq> bI_RGB \<longrightarrow> (\<forall>img. fst (Decode a) \<noteq> Inr img)) \<and>
   (header_ok a \<and> 1 \<le> biWidth_of a \<and> biHeight_of a \<noteq> 0 \<and> biCompression_of a \<noteq> bI_RGB \<and>
    (biCompression_of a \<in> {bI_RLE8, bI_RLE4, bI_BITFIELDS} \<longrightarrow> \<not> 10000 < biClrUsed_of a) \<longrightarrow>
      fst (Decode a) =
        Inl (UnsupportedError
               (''compression or image type '' @ sprint_d (uint (biCompression_of a)))))"
proof (intro conjI impI allI)
  assume h: "header_ok a \<and> 1 \<le> biWidth_of a \<and> biHeight_of a \<noteq> 0 \<and> biBitCount_of a = 8 \<and>
    biCompression_of a = 2 \<and> \<not> 10000 < biClrUsed_of a"
  then show "DecodeConfig a =
        (Inr \<lparr>ColorModel = PaletteModel [], Width = biWidth_of a,
               Height = \<bar>biHeight_of a\<bar>\<rparr>, drop 54 a)"
    using readHeaders_config_ok [of a]
    by (simp add: DecodeConfig_def config_header_state_def)
  from h have "biCompression_of a \<in> {bI_RLE8, bI_RLE4, bI_BITFIELDS}"
    by (simp add: bI_RLE4_def)
  with h show "Decode a = (Inl (UnsupportedError ''compression or image type 2''), drop 54 a)"
    using Decode_compressed [of a] by (simp add: sprint_d_small)
next
  assume "length a = length b \<and> take 30 a = take 30 b"
  then show "fst (DecodeConfig a) = fst (DecodeConfig b)"
    using fst_DecodeConfig_cong [of a b] by simp
next
  fix img
  assume "biCompression_of a \<noteq> bI_RGB"
  then show "fst (Decode a) \<noteq> Inr img"
    using Decode_Inr_header [of a img] by auto
next
  assume h: "header_ok a \<and> 1 \<le> biWidth_of a \<and> biHeight_of a \<noteq> 0 \<and>
    biCompression_of a \<noteq> bI_RGB \<and>
    (biCompression_of a \<in> {bI_RLE8, bI_RLE4, bI_BITFIELDS} \<longrightarrow> \<not> 10000 < biClrUsed_of a)"
  show "fst (Decode a) =
        Inl (UnsupportedError
               (''compression or image type '' @ sprint_d (uint (biCompression_of a))))"
  proof (cases "biCompression_of a \<in> {bI_RLE8, bI_RLE4, bI_BITFIELDS}")
    case True
    with h have n: "\<not> 10000 < biClrUsed_of a" by blast
    from h have "header_ok a" "1 \<le> biWidth_of a" "biHeight_of a \<noteq> 0" by simp_all
    from Decode_compressed [OF this True n] show ?thesis by simp
  next
    case False
    with h have "biCompression_of a \<notin> {bI_RGB, bI_RLE8, bI_RLE4, bI_BITFIELDS}" by auto
    with h show ?thesis
      using readHeaders_bad_compression [of a] Decode_header_error [of a] by simp
  qed
qed

theorem C6_compression_witness:
  "DecodeConfig bmp_rle_8bit =
     (Inr \<lparr>ColorModel = PaletteModel [], Width = 2, Height = 2\<rparr>, []) \<and>
   Decode bmp_rle_8bit = (Inl (UnsupportedError ''compression or image type 2''), []) \<and>
   fst (DecodeConfig bmp_rle_8bit) = fst (DecodeConfig bmp_rle_8bit_other) \<and>
   (\<forall>img. fst (Decode bmp_rle_8bit) \<noteq> Inr img)"
proof -
  have h1: "header_ok bmp_rle_8bit \<and> 1 \<le> biWidth_of bmp_rle_8bit \<and>
      biHeight_of bmp_rle_8bit \<noteq> 0 \<and> biBitCount_of bmp_rle_8bit = 8 \<and>
      biCompression_of bmp_rle_8bit = 2 \<and> \<not> 10000 < biClrUsed_of bmp_rle_8bit"
    by code_simp
  have h2: "length bmp_rle_8bit = length bmp_rle_8bit_other \<and>
      take 30 bmp_rle_8bit = take 30 bmp_rle_8bit_other"
    by code_simp
  have h3: "biCompression_of bmp_rle_8bit \<noteq> bI_RGB"
    by code_simp
  have v: "biWidth_of bmp_rle_8bit = 2" "\<bar>biHeight_of bmp_rle_8bit\<bar> = 2"
    "drop 54 bmp_rle_8bit = []"
    by code_simp+
  note c = C6_compression [of bmp_rle_8bit bmp_rle_8bit_other]
  from c h1 have 1: "DecodeConfig bmp_rle_8bit =
        (Inr \<lparr>ColorModel = PaletteModel [], Width = biWidth_of bmp_rle_8bit,
               Height = \<bar>biHeight_of bmp_rle_8bit\<bar>\<rparr>, drop 54 bmp_rle_8bit) \<and>
      Decode bmp_rle_8bit =
        (Inl (UnsupportedError ''compression or image type 2''), drop 54 bmp_rle_8bit)"
    by blast
  from c h2 have 2: "fst (DecodeConfig bmp_rle_8bit) = fst (DecodeConfig bmp_rle_8bit_other)"
    by blast
  from c h3 have 3: "\<forall>img. fst (Decode bmp_rle_8bit) \<noteq> Inr img"
    by blast
  from 1 show ?thesis
    unfolding v using 2 3 by blast
qed

subsection \<open>C7: the number of palette entries\<close>

text \<open>
  C7. In full mode, on a header that has passed the checks before it (signature, header
  size 40, width at least 1, height not 0, one of the four compression codes), a colour
  count above 10000 makes \<open>readHeaders\<close> fail with the format error that names the
  count. Otherwise \<open>readHeaders\<close> succeeds and the number of source palette entries is
  2 to the power of the bit count when the bit count is within 1 to 8 and the colour
  count is zero (2 entries for 1 bit), and the colour count itself in every other case,
  also for a bit count outside 1 to 8; an entry takes 4 bytes.
\<close>

theorem C7_palette_count:
  assumes "header_ok a" "1 \<le> biWidth_of a" "biHeight_of a \<noteq> 0"
    "biCompression_of a \<in> {bI_RGB, bI_RLE8, bI_RLE4, bI_BITFIELDS}"
  shows "(10000 < biClrUsed_of a \<longrightarrow>
      fst (readHeaders (new_decoder a) False) =
        Some (FormatError (''bad palette size '' @ sprint_d (uint (biClrUsed_of a))))) \<and>
    (\<not> 10000 < biClrUsed_of a \<longrightarrow>
      fst (readHeaders (new_decoder a) False) = None \<and>
      srcPalNumEntries (snd (readHeaders (new_decoder a) False)) =
        (if 1 \<le> biBitCount_of a \<and> biBitCount_of a \<le> 8 \<and> biClrUsed_of a = 0
         then 2 ^ nat (biBitCount_of a) else uint (biClrUsed_of a)) \<and>
      srcPalBytesPerEntry (snd (readHeaders (new_decoder a) False)) = 4 \<and>
      srcPalSizeInBytes (snd (readHeaders (new_decoder a) False)) =
        srcPalNumEntries (snd (readHeaders (new_decoder a) False)) * 4 \<and>
      (biBitCount_of a = 1 \<and> biClrUsed_of a = 0 \<longrightarrow>
         srcPalNumEntries (snd (readHeaders (new_decoder a) False)) = 2))"
proof (intro conjI impI)
  assume "10000 < biClrUsed_of a"
  from readHeaders_bad_palette_size [OF assms this]
  show "fst (readHeaders (new_decoder a) False) =
        Some (FormatError (''bad palette size '' @ sprint_d (uint (biClrUsed_of a))))" .
next
  assume n: "\<not> 10000 < biClrUsed_of a"
  note ok = readHeaders_full_ok [OF assms n]
  show "fst (readHeaders (new_decoder a) False) = None"
    by (simp add: ok)
  show "srcPalNumEntries (snd (readHeaders (new_decoder a) False)) =
        (if 1 \<le> biBitCount_of a \<and> biBitCount_of a \<le> 8 \<and> biClrUsed_of a = 0
         then 2 ^ nat (biBitCount_of a) else uint (biClrUsed_of a))"
    by (simp add: ok full_header_state_def srcPal_of_def)
  show "srcPalBytesPerEntry (snd (readHeaders (new_decoder a) False)) = 4"
    by (simp add: ok full_header_state_def)
  show "srcPalSizeInBytes (snd (readHeaders (new_decoder a) False)) =
        srcPalNumEntries (snd (readHeaders (new_decoder a) False)) * 4"
    by (simp add: ok full_header_state_def)
  show "srcPalNumEntries (snd (readHeaders (new_decoder a) False)) = 2"
    if "biBitCount_of a = 1 \<and> biClrUsed_of a = 0"
    using that by (simp add: ok full_header_state_def srcPal_of_def)
qed

theorem C7_palette_count_witness:
  "fst (readHeaders (new_decoder bmp_1bit_header) False) = None \<and>
   srcPalNumEntries (snd (readHeaders (new_decoder bmp_1bit_header) False)) = 2 \<and>
   fst (readHeaders (new_decoder bmp_big_palette_header) False) =
     Some (FormatError ''bad palette size 10001'')"
proof -
  have c1: "biCompression_of bmp_1bit_header = 0"
    and c2: "biCompression_of bmp_big_palette_header = 0"
    and n2: "biClrUsed_of bmp_big_palette_header = 10001"
    by code_simp+
  have h1: "header_ok bmp_1bit_header" "1 \<le> biWidth_of bmp_1bit_header"
    "biHeight_of bmp_1bit_header \<noteq> 0"
    by code_simp+
  have k1: "biCompression_of bmp_1bit_header \<in> {bI_RGB, bI_RLE8, bI_RLE4, bI_BITFIELDS}"
    by (simp add: c1 bI_RGB_def)
  have v1: "\<not> 10000 < biClrUsed_of bmp_1bit_header"
    "biBitCount_of bmp_1bit_header = 1 \<and> biClrUsed_of bmp_1bit_header = 0"
    by code_simp+
  have h2: "header_ok bmp_big_palette_header" "1 \<le> biWidth_of bmp_big_palette_header"
    "biHeight_of bmp_big_palette_header \<noteq> 0"
    by code_simp+
  have k2: "biCompression_of bmp_big_palette_header \<in> {bI_RGB, bI_RLE8, bI_RLE4, bI_BITFIELDS}"
    by (simp add: c2 bI_RGB_def)
  have v2: "10000 < biClrUsed_of bmp_big_palette_header"
    by (simp add: n2)
  have s2: "sprint_d (uint (biClrUsed_of bmp_big_palette_header)) = ''10001''"
    by (simp add: n2 sprint_d_def decimal.simps)
  from C7_palette_count [OF h1 k1] v1
  have 1: "fst (readHeaders (new_decoder bmp_1bit_header) False) = None \<and>
      srcPalNumEntries (snd (readHeaders (new_decoder bmp_1bit_header) False)) = 2"
    by blast
  from C7_palette_count [OF h2 k2] v2
  have "fst (readHeaders (new_decoder bmp_big_palette_header) False) =
      Some (FormatError
        (''bad palette size '' @ sprint_d (uint (biClrUsed_of bmp_big_palette_header))))"
    by blast
  then have 2: "fst (readHeaders (new_decoder bmp_big_palette_header) False) =
      Some (FormatError ''bad palette size 10001'')"
    by (simp add: s2)
  from 1 2 show ?thesis by blast
qed

subsection \<open>C10: the size and reserved fields of the file header\<close>

text \<open>
  C10. The bytes at offsets 2 to 9 of the file never influence the result: two inputs of
  one length that agree on their first two bytes and from offset 10 on give the same
  result of \<open>Decode\<close> (the same image or the same error, and the same rest of the
  reader) and the same result of \<open>DecodeConfig\<close>.
\<close>

theorem C10_ignored_bytes:
  assumes "length a = length b" "take 2 a = take 2 b" "drop 10 a = drop 10 b"
  shows "Decode a = Decode b \<and> DecodeConfig a = DecodeConfig b"
  using readHeaders_cong_file_header [OF assms]
  by (simp add: Decode_def DecodeConfig_def)

theorem C10_ignored_bytes_witness:
  "Decode bmp_24bit = Decode bmp_24bit_other \<and>
   DecodeConfig bmp_24bit = DecodeConfig bmp_24bit_other \<and>
   bmp_24bit \<noteq> bmp_24bit_other"
proof -
  have h: "length bmp_24bit = length bmp_24bit_other"
    "take 2 bmp_24bit = take 2 bmp_24bit_other"
    "drop 10 bmp_24bit = drop 10 bmp_24bit_other"
    by code_simp+
  have n: "bmp_24bit \<noteq> bmp_24bit_other"
    by code_simp
  from C10_ignored_bytes [OF h] n show ?thesis by blast
qed

end
